theory Spec2Isabelle
  imports Complex_Main "HOL-Library.Product_Lexorder" "HOL-Library.Char_ord"
    "HOL-Library.List_Lexorder"
begin

section \<open>Numbers, random draws and time\<close>

text \<open>
  JavaScript numbers are modelled as exact rationals. A value that is not a finite
  number in the program (\<open>null\<close>, \<open>NaN\<close>, \<open>Infinity\<close>) is \<open>None\<close> where the
  program can produce one. The storage precision of the DECIMAL columns and the
  referential constraints of the schema are not modelled. A draw of \<open>Math.random()\<close>
  is an explicit argument \<open>r\<close> with \<open>0 \<le> r < 1\<close>.
\<close>

definition is_draw :: "rat \<Rightarrow> bool" where
  "is_draw r \<longleftrightarrow> 0 \<le> r \<and> r < 1"

text \<open>
  \<open>Number.prototype.toFixed(f)\<close> followed by \<open>parseFloat\<close>: the nearest multiple of
  \<open>10^-f\<close>, a tie going to the larger magnitude.
\<close>

definition toFixed :: "nat \<Rightarrow> rat \<Rightarrow> rat" where
  "toFixed f x =
     (if x < 0 then - (of_int \<lfloor>(- x) * 10 ^ f + 1 / 2\<rfloor> / 10 ^ f)
      else of_int \<lfloor>x * 10 ^ f + 1 / 2\<rfloor> / 10 ^ f)"

text \<open>
  \<open>Utils.calculateUnits(amount, nav)\<close>. With \<open>nav\<close> null or zero the JavaScript
  quotient is \<open>Infinity\<close> or \<open>NaN\<close>: the result is \<open>None\<close>.
\<close>

definition calculateUnits :: "rat \<Rightarrow> rat option \<Rightarrow> rat option" where
  "calculateUnits amount nav =
     (case nav of
        None \<Rightarrow> None
      | Some v \<Rightarrow> if v = 0 then None else Some (toFixed 6 (amount / v)))"

text \<open>\<open>Utils.randomBoolean(probability)\<close> and \<open>Utils.getRandomElement(array)\<close>.\<close>

definition randomBoolean :: "rat \<Rightarrow> rat \<Rightarrow> bool" where
  "randomBoolean r probability \<longleftrightarrow> r < probability"

definition getRandomElement :: "rat \<Rightarrow> 'a list \<Rightarrow> 'a option" where
  "getRandomElement r array =
     (let i = nat \<lfloor>r * of_nat (length array)\<rfloor>
      in if i < length array then Some (array ! i) else None)"

text \<open>
  A timestamp is a number of milliseconds since 1970-01-01T00:00 (a Thursday), read in
  UTC. \<open>getDay\<close> is the day of the week, 0 for Sunday and 6 for Saturday.
\<close>

type_synonym timestamp = nat

definition ms_per_day :: nat where
  "ms_per_day = 86400000"

definition getDay :: "timestamp \<Rightarrow> nat" where
  "getDay t = (t div ms_per_day + 4) mod 7"


text \<open>
  \<open>Utils.addBusinessDays(date, days)\<close>: the loop advances one calendar day at a time and
  counts the day unless it is a Saturday or a Sunday.
\<close>

function addBusinessDays_loop :: "timestamp \<Rightarrow> nat \<Rightarrow> nat \<Rightarrow> timestamp" where
  "addBusinessDays_loop result addedDays days =
     (if addedDays < days then
        (let result' = result + ms_per_day
         in if getDay result' \<noteq> 0 \<and> getDay result' \<noteq> 6
            then addBusinessDays_loop result' (addedDays + 1) days
            else addBusinessDays_loop result' addedDays days)
      else result)"
  by pat_completeness auto
termination
proof (relation "measure (\<lambda>(result, addedDays, days).
    3 * (days - addedDays) +
    (if getDay (result + ms_per_day) = 6 then 2
     else if getDay (result + ms_per_day) = 0 then 1 else 0))")
  show "wf (measure (\<lambda>(result, addedDays, days).
    3 * (days - addedDays) +
    (if getDay (result + ms_per_day) = 6 then 2
     else if getDay (result + ms_per_day) = 0 then 1 else 0)))"
    by simp
next
  fix result addedDays days :: nat and x
  assume "addedDays < days" "x = result + ms_per_day"
    "getDay x \<noteq> 0 \<and> getDay x \<noteq> 6"
  then show "((x, addedDays + 1, days), result, addedDays, days)
    \<in> measure (\<lambda>(result, addedDays, days).
      3 * (days - addedDays) +
      (if getDay (result + ms_per_day) = 6 then 2
       else if getDay (result + ms_per_day) = 0 then 1 else 0))"
    by (auto split: if_splits)
next
  fix result addedDays days :: nat and x
  assume a: "addedDays < days" "x = result + ms_per_day"
    "\<not> (getDay x \<noteq> 0 \<and> getDay x \<noteq> 6)"
  have step: "getDay (x + ms_per_day) = (getDay x + 1) mod 7"
    by (simp add: getDay_def ms_per_day_def) presburger
  from a step show "((x, addedDays, days), result, addedDays, days)
    \<in> measure (\<lambda>(result, addedDays, days).
      3 * (days - addedDays) +
      (if getDay (result + ms_per_day) = 6 then 2
       else if getDay (result + ms_per_day) = 0 then 1 else 0))"
    by auto
qed

declare addBusinessDays_loop.simps [simp del]

definition addBusinessDays :: "timestamp \<Rightarrow> nat \<Rightarrow> timestamp" where
  "addBusinessDays date days = addBusinessDays_loop date 0 days"


text \<open>
  A calendar date (the DATE columns, and a JavaScript \<open>Date\<close> at midnight) is a triple of
  year, month (0 to 11, as \<open>getMonth\<close> counts) and day of the month; triples are
  compared lexicographically.
\<close>

type_synonym date = "nat \<times> nat \<times> nat"

definition leap_year :: "nat \<Rightarrow> bool" where
  "leap_year y \<longleftrightarrow> y mod 4 = 0 \<and> (y mod 100 \<noteq> 0 \<or> y mod 400 = 0)"

definition days_in_month :: "nat \<Rightarrow> nat \<Rightarrow> nat" where
  "days_in_month y m =
     (if m = 1 then (if leap_year y then 29 else 28)
      else if m = 3 \<or> m = 5 \<or> m = 8 \<or> m = 10 then 30 else 31)"

definition valid_date :: "date \<Rightarrow> bool" where
  "valid_date dt \<longleftrightarrow>
     (case dt of (y, m, d) \<Rightarrow> m < 12 \<and> 1 \<le> d \<and> d \<le> days_in_month y m)"

text \<open>
  The date that JavaScript makes of a year, a month index that may exceed 11 and a day
  that may exceed the length of the month: surplus months carry into the year, surplus
  days into the following month. For a day of at most 31 one carry is enough, since no
  month is shorter than 28 days and every month that follows a short one has 31.
\<close>

definition makeDate :: "nat \<Rightarrow> nat \<Rightarrow> nat \<Rightarrow> date" where
  "makeDate y m d =
     (let y' = y + m div 12; m' = m mod 12; len = days_in_month y' m'
      in if d \<le> len then (y', m', d)
         else if m' = 11 then (y' + 1, 0, d - len)
         else (y', m' + 1, d - len))"

definition setMonth :: "date \<Rightarrow> nat \<Rightarrow> date" where
  "setMonth dt m = (case dt of (y, _, d) \<Rightarrow> makeDate y m d)"

definition setFullYear :: "date \<Rightarrow> nat \<Rightarrow> date" where
  "setFullYear dt y = (case dt of (_, m, d) \<Rightarrow> makeDate y m d)"

definition getMonth :: "date \<Rightarrow> nat" where
  "getMonth dt = fst (snd dt)"

definition getFullYear :: "date \<Rightarrow> nat" where
  "getFullYear dt = fst dt"

definition getDate :: "date \<Rightarrow> nat" where
  "getDate dt = snd (snd dt)"

text \<open>\<open>Utils.getNextSipExecutionDate(frequency, currentDate)\<close>.\<close>

definition getNextSipExecutionDate :: "string \<Rightarrow> date \<Rightarrow> date" where
  "getNextSipExecutionDate frequency currentDate =
     (if frequency = ''MONTHLY'' then setMonth currentDate (getMonth currentDate + 1)
      else if frequency = ''QUARTERLY'' then setMonth currentDate (getMonth currentDate + 3)
      else if frequency = ''YEARLY'' then setFullYear currentDate (getFullYear currentDate + 1)
      else setMonth currentDate (getMonth currentDate + 1))"

text \<open>\<open>new Date(null)\<close> is the epoch.\<close>

definition date_of_nullable :: "date option \<Rightarrow> date" where
  "date_of_nullable d = (case d of None \<Rightarrow> (1970, 0, 1) | Some x \<Rightarrow> x)"

section \<open>Configuration constants\<close>

definition transactionTypes_PURCHASE :: string where
  "transactionTypes_PURCHASE = ''PURCHASE''"

definition transactionTypes_REDEMPTION :: string where
  "transactionTypes_REDEMPTION = ''REDEMPTION''"

definition transactionModes_SIP :: string where
  "transactionModes_SIP = ''SIP''"

definition transactionModes_REDEMPTION :: string where
  "transactionModes_REDEMPTION = ''REDEMPTION''"

definition transaction_SUBMITTED :: string where
  "transaction_SUBMITTED = ''SUBMITTED''"

definition transaction_PROCESSED :: string where
  "transaction_PROCESSED = ''PROCESSED''"

definition cams_PENDING :: string where
  "cams_PENDING = ''PENDING''"

definition cams_PROCESSED :: string where
  "cams_PROCESSED = ''PROCESSED''"

definition cams_REJECTED :: string where
  "cams_REJECTED = ''REJECTED''"

definition sip_ACTIVE :: string where
  "sip_ACTIVE = ''ACTIVE''"

definition sip_COMPLETED :: string where
  "sip_COMPLETED = ''COMPLETED''"

text \<open>The environment-level options of \<open>config.simulation\<close> that the model reads.\<close>

record config =
  maxFoliosPerCustomer :: nat
  camsProcessingDelay :: nat

section \<open>The store\<close>

text \<open>
  One record per table row; an object of a model class is a snapshot of its row and has
  the same type. The audit columns \<open>created_at\<close> and \<open>updated_at\<close>, and the columns
  that no modelled operation reads, are left out. The holdings table is keyed by its
  unique pair (folio, scheme).
\<close>

record transaction =
  txn_id :: nat
  txn_transactionId :: string
  txn_folioId :: nat
  txn_schemeId :: nat
  txn_customerId :: nat
  txn_transactionType :: string
  txn_transactionMode :: string
  txn_amount :: rat
  txn_units :: rat
  txn_nav :: "rat option"
  txn_transactionDate :: timestamp
  txn_processDate :: "timestamp option"
  txn_settlementDate :: "timestamp option"
  txn_status :: string
  txn_camsStatus :: string
  txn_camsProcessedDate :: "timestamp option"
  txn_camsReferenceNumber :: "string option"
  txn_remarks :: "string option"

record holding =
  h_customerId :: nat
  h_total_units :: rat
  h_current_value :: "rat option"
  h_invested_amount :: rat
  h_last_transaction_date :: "timestamp option"

record scheme =
  scheme_id :: nat
  scheme_name :: string
  scheme_category :: string
  scheme_nav :: rat
  scheme_isActive :: bool

record sip =
  sip_id :: nat
  sip_sipId :: string
  sip_customerId :: nat
  sip_folioId :: nat
  sip_schemeId :: nat
  sip_amount :: rat
  sip_frequency :: string
  sip_startDate :: date
  sip_endDate :: "date option"
  sip_nextExecutionDate :: "date option"
  sip_status :: string
  sip_executionCount :: nat
  sip_maxExecutions :: "nat option"

record customer =
  customer_id :: nat
  customer_createdAt :: timestamp

record folio =
  folio_id :: nat
  folio_customerId :: nat
  folio_schemeId :: nat
  folio_status :: string

record database =
  customers :: "customer list"
  schemes :: "scheme list"
  folios :: "folio list"
  folios_id_seq :: nat
  transactions :: "transaction list"
  transactions_id_seq :: nat
  sip_registrations :: "sip list"
  sip_registrations_id_seq :: nat
  holdings :: "nat \<times> nat \<rightharpoonup> holding"

datatype error =
  NonFiniteNumber | SeedFailure | NotRunning | NoCustomers | NoSchemes | TypeError

text \<open>
  \<open>UPDATE ... WHERE id = $n RETURNING *\<close>: every row with the id is changed, and the
  changed rows are returned.
\<close>

definition update_where :: "('a \<Rightarrow> bool) \<Rightarrow> ('a \<Rightarrow> 'a) \<Rightarrow> 'a list \<Rightarrow> 'a list" where
  "update_where p f rows = map (\<lambda>r. if p r then f r else r) rows"

definition returning :: "('a \<Rightarrow> bool) \<Rightarrow> ('a \<Rightarrow> 'a) \<Rightarrow> 'a list \<Rightarrow> 'a list" where
  "returning p f rows = map f (filter p rows)"


section \<open>Transaction\<close>

definition isProcessed :: "transaction \<Rightarrow> bool" where
  "isProcessed t \<longleftrightarrow> txn_status t = transaction_PROCESSED"


text \<open>
  \<open>Transaction.create\<close>: the id comes from the sequence; an empty status falls back to
  SUBMITTED and an empty settlement status to PENDING; the columns that the INSERT does
  not list are null.
\<close>

definition Transaction_create :: "transaction \<Rightarrow> database \<Rightarrow> transaction \<times> database" where
  "Transaction_create transactionData db =
     (let row = transactionData
            \<lparr>txn_id := transactions_id_seq db,
             txn_processDate := None,
             txn_settlementDate := None,
             txn_status := (if txn_status transactionData = [] then transaction_SUBMITTED
                            else txn_status transactionData),
             txn_camsStatus := (if txn_camsStatus transactionData = [] then cams_PENDING
                                else txn_camsStatus transactionData),
             txn_camsProcessedDate := None,
             txn_camsReferenceNumber := None\<rparr>
      in (row, db\<lparr>transactions := transactions db @ [row],
                   transactions_id_seq := transactions_id_seq db + 1\<rparr>))"

text \<open>The signed contribution of a transaction to its holding (\<open>updateHoldings\<close>).\<close>

definition unitsChange :: "transaction \<Rightarrow> rat" where
  "unitsChange t =
     (if txn_transactionMode t = transactionModes_REDEMPTION then - txn_units t
      else txn_units t)"

definition amountChange :: "transaction \<Rightarrow> rat" where
  "amountChange t =
     (if txn_transactionMode t = transactionModes_REDEMPTION then - txn_amount t
      else txn_amount t)"

text \<open>
  \<open>updateCurrentValue\<close>: the holding of the transaction's folio and scheme is repriced at
  the NAV that the schemes table holds now; the scalar subquery is null when the scheme
  row is missing.
\<close>

definition updateCurrentValue :: "transaction \<Rightarrow> database \<Rightarrow> database" where
  "updateCurrentValue t db =
     (case holdings db (txn_folioId t, txn_schemeId t) of
        None \<Rightarrow> db
      | Some h \<Rightarrow>
          db\<lparr>holdings := (holdings db)((txn_folioId t, txn_schemeId t) \<mapsto>
            h\<lparr>h_current_value :=
                (case find (\<lambda>s. scheme_id s = txn_schemeId t) (schemes db) of
                   None \<Rightarrow> None
                 | Some s \<Rightarrow> Some (h_total_units h * scheme_nav s))\<rparr>)\<rparr>)"

text \<open>
  \<open>updateHoldings\<close>: one INSERT with ON CONFLICT on (folio, scheme), then the repricing.
  A new row takes the column default 0 for \<open>current_value\<close>.
\<close>

definition updateHoldings :: "transaction \<Rightarrow> database \<Rightarrow> database" where
  "updateHoldings t db =
     (let lastDate = (case txn_processDate t of
                        Some p \<Rightarrow> p
                      | None \<Rightarrow> txn_transactionDate t);
          upserted =
            (case holdings db (txn_folioId t, txn_schemeId t) of
               None \<Rightarrow>
                 \<lparr>h_customerId = txn_customerId t,
                  h_total_units = unitsChange t,
                  h_current_value = Some 0,
                  h_invested_amount = amountChange t,
                  h_last_transaction_date = Some lastDate\<rparr>
             | Some h \<Rightarrow>
                 h\<lparr>h_total_units := h_total_units h + unitsChange t,
                   h_invested_amount := h_invested_amount h + amountChange t,
                   h_last_transaction_date := Some lastDate\<rparr>)
      in updateCurrentValue t
           (db\<lparr>holdings := (holdings db)((txn_folioId t, txn_schemeId t) \<mapsto> upserted)\<rparr>))"

text \<open>
  \<open>process(nav)\<close> at clock reading \<open>now\<close>. Units that are not a finite number have no
  counterpart in the model: the call ends with \<open>NonFiniteNumber\<close> and the store as it was.
  When no row has the object's id, the object and the store stay as they are.
\<close>

definition process ::
  "timestamp \<Rightarrow> rat option \<Rightarrow> transaction \<Rightarrow> database \<Rightarrow> error + transaction \<times> database" where
  "process now nav t db =
     (case calculateUnits (txn_amount t) nav of
        None \<Rightarrow> Inl NonFiniteNumber
      | Some units \<Rightarrow>
          (let processDate = now;
               settlementDate = addBusinessDays processDate
                 (if txn_transactionType t = transactionTypes_REDEMPTION then 3 else 1);
               assign = (\<lambda>r. r\<lparr>txn_units := units,
                               txn_nav := nav,
                               txn_processDate := Some processDate,
                               txn_settlementDate := Some settlementDate,
                               txn_status := transaction_PROCESSED\<rparr>);
               db' = db\<lparr>transactions :=
                       update_where (\<lambda>r. txn_id r = txn_id t) assign (transactions db)\<rparr>
           in case returning (\<lambda>r. txn_id r = txn_id t) assign (transactions db) of
                [] \<Rightarrow> Inr (t, db')
              | row # _ \<Rightarrow> Inr (row, updateHoldings row db')))"

definition updateCAMSStatus ::
  "timestamp \<Rightarrow> string \<Rightarrow> string option \<Rightarrow> transaction \<Rightarrow> database
     \<Rightarrow> transaction \<times> database" where
  "updateCAMSStatus now status camsReferenceNumber t db =
     (let assign = (\<lambda>r. r\<lparr>txn_camsStatus := status,
                          txn_camsProcessedDate := Some now,
                          txn_camsReferenceNumber := camsReferenceNumber\<rparr>);
          db' = db\<lparr>transactions :=
                  update_where (\<lambda>r. txn_id r = txn_id t) assign (transactions db)\<rparr>
      in case returning (\<lambda>r. txn_id r = txn_id t) assign (transactions db) of
           [] \<Rightarrow> (t, db')
         | row # _ \<Rightarrow> (row, db'))"




section \<open>Settlement task\<close>

record cams_outcome =
  outcome_success :: bool
  outcome_reason :: "string option"

definition rejection_reasons :: "string list" where
  "rejection_reasons =
     [''Insufficient funds'', ''Invalid PAN'', ''KYC not completed'',
      ''Scheme not active'', ''Minimum investment not met'']"

text \<open>
  \<open>simulateCAMSProcessing()\<close> with its draw \<open>random\<close> and the draw that
  \<open>getRandomElement\<close> makes for the reason.
\<close>

definition simulateCAMSProcessing :: "rat \<Rightarrow> rat \<Rightarrow> cams_outcome" where
  "simulateCAMSProcessing random pick =
     (if random < 85 / 100 then
        \<lparr>outcome_success = True, outcome_reason = None\<rparr>
      else if random < 95 / 100 then
        \<lparr>outcome_success = False,
         outcome_reason = getRandomElement pick rejection_reasons\<rparr>
      else
        \<lparr>outcome_success = False,
         outcome_reason = Some ''Technical failure - will retry''\<rparr>)"

text \<open>What one pass of the settlement loop reads from outside the store.\<close>

record cams_input =
  in_clock :: timestamp
  in_random :: rat
  in_pick :: rat
  in_camsReference :: string

text \<open>
  The body of the loop of \<open>startCAMSProcessing\<close> for one pending transaction; the last
  component counts \<open>stats.camsProcessed\<close>.
\<close>

definition cams_settle ::
  "cams_input \<Rightarrow> transaction \<Rightarrow> database \<Rightarrow> nat \<Rightarrow> error + transaction \<times> database \<times> nat" where
  "cams_settle inp t db camsProcessed =
     (let processingOutcome = simulateCAMSProcessing (in_random inp) (in_pick inp)
      in if outcome_success processingOutcome then
           (case (if \<not> isProcessed t then process (in_clock inp) (txn_nav t) t db
                  else Inr (t, db)) of
              Inl e \<Rightarrow> Inl e
            | Inr (t1, db1) \<Rightarrow>
                (case updateCAMSStatus (in_clock inp) cams_PROCESSED
                        (Some (in_camsReference inp)) t1 db1 of
                   (t2, db2) \<Rightarrow> Inr (t2, db2, camsProcessed + 1)))
         else
           (case updateCAMSStatus (in_clock inp) cams_REJECTED
                   (Some (in_camsReference inp)) t db of
              (t2, db2) \<Rightarrow> Inr (t2, db2, camsProcessed)))"




section \<open>SIP\<close>

text \<open>
  The constructor of \<open>SIP\<close> reads a \<open>max_executions\<close> of 0 as no limit
  (\<open>data.max_executions ? parseInt(data.max_executions) : null\<close>).
\<close>

definition new_SIP :: "sip \<Rightarrow> sip" where
  "new_SIP row =
     row\<lparr>sip_maxExecutions :=
           (case sip_maxExecutions row of
              None \<Rightarrow> None
            | Some m \<Rightarrow> if m = 0 then None else Some m)\<rparr>"

definition SIP_findById :: "nat \<Rightarrow> database \<Rightarrow> sip option" where
  "SIP_findById i db =
     (case filter (\<lambda>r. sip_id r = i) (sip_registrations db) of
        [] \<Rightarrow> None
      | row # _ \<Rightarrow> Some (new_SIP row))"

text \<open>The WHERE clause of \<open>findDueForExecution\<close>; a comparison with null is not true.\<close>

definition due_for_execution :: "date \<Rightarrow> sip \<Rightarrow> bool" where
  "due_for_execution today r \<longleftrightarrow>
     sip_status r = sip_ACTIVE \<and>
     (case sip_nextExecutionDate r of None \<Rightarrow> False | Some d \<Rightarrow> d \<le> today) \<and>
     (case sip_endDate r of None \<Rightarrow> True | Some e \<Rightarrow> today \<le> e) \<and>
     (case sip_maxExecutions r of None \<Rightarrow> True | Some m \<Rightarrow> sip_executionCount r < m)"

text \<open>
  \<open>SIP.findDueForExecution()\<close>: the due registrations joined with their scheme, in the
  order of their next execution date, each with the scheme's NAV.
\<close>

definition findDueForExecution :: "date \<Rightarrow> database \<Rightarrow> (sip \<times> rat) list" where
  "findDueForExecution today db =
     map (\<lambda>(r, s). (new_SIP r, scheme_nav s))
       (sort_key (\<lambda>(r, s). date_of_nullable (sip_nextExecutionDate r))
         (concat (map
            (\<lambda>r. map (\<lambda>s. (r, s))
                   (filter (\<lambda>s. scheme_id s = sip_schemeId r) (schemes db)))
            (filter (due_for_execution today) (sip_registrations db)))))"

text \<open>
  \<open>updateAfterExecution()\<close>: the new count and the advanced date are computed from the
  object; the status is decided in the order of the source; the date is stored as null
  when the new status is COMPLETED.
\<close>

definition updateAfterExecution :: "sip \<Rightarrow> database \<Rightarrow> sip \<times> database" where
  "updateAfterExecution s db =
     (let newExecutionCount = sip_executionCount s + 1;
          nextExecutionDate =
            getNextSipExecutionDate (sip_frequency s)
              (date_of_nullable (sip_nextExecutionDate s));
          newStatus =
            (if (case sip_maxExecutions s of
                   None \<Rightarrow> False
                 | Some m \<Rightarrow> m \<noteq> 0 \<and> m \<le> newExecutionCount)
             then sip_COMPLETED
             else if (case sip_endDate s of
                        None \<Rightarrow> False
                      | Some e \<Rightarrow> e < nextExecutionDate)
             then sip_COMPLETED
             else sip_status s);
          assign = (\<lambda>r. r\<lparr>sip_executionCount := newExecutionCount,
                             sip_nextExecutionDate :=
                               (if newStatus = sip_COMPLETED then None
                                else Some nextExecutionDate),
                             sip_status := newStatus\<rparr>);
          db' = db\<lparr>sip_registrations :=
                  update_where (\<lambda>r. sip_id r = sip_id s) assign (sip_registrations db)\<rparr>
      in case returning (\<lambda>r. sip_id r = sip_id s) assign (sip_registrations db) of
           [] \<Rightarrow> (s, db')
         | row # _ \<Rightarrow> (new_SIP row, db'))"

text \<open>\<open>updateStatus(newStatus)\<close>, which \<open>pause\<close>, \<open>resume\<close> and \<open>cancel\<close> call.\<close>

definition updateStatus :: "string \<Rightarrow> sip \<Rightarrow> database \<Rightarrow> sip \<times> database" where
  "updateStatus newStatus s db =
     (let assign = (\<lambda>r. r\<lparr>sip_status := newStatus\<rparr>);
          db' = db\<lparr>sip_registrations :=
                  update_where (\<lambda>r. sip_id r = sip_id s) assign (sip_registrations db)\<rparr>
      in case returning (\<lambda>r. sip_id r = sip_id s) assign (sip_registrations db) of
           [] \<Rightarrow> (s, db')
         | row # _ \<Rightarrow> (new_SIP row, db'))"

text \<open>The transaction that \<open>execute(nav)\<close> asks \<open>Transaction.create\<close> to store.\<close>

definition sip_transactionData :: "timestamp \<Rightarrow> string \<Rightarrow> rat \<Rightarrow> sip \<Rightarrow> transaction" where
  "sip_transactionData now transactionId nav s =
     \<lparr>txn_id = 0,
      txn_transactionId = transactionId,
      txn_folioId = sip_folioId s,
      txn_schemeId = sip_schemeId s,
      txn_customerId = sip_customerId s,
      txn_transactionType = transactionTypes_PURCHASE,
      txn_transactionMode = transactionModes_SIP,
      txn_amount = sip_amount s,
      txn_units = 0,
      txn_nav = Some nav,
      txn_transactionDate = now,
      txn_processDate = None,
      txn_settlementDate = None,
      txn_status = transaction_SUBMITTED,
      txn_camsStatus = cams_PENDING,
      txn_camsProcessedDate = None,
      txn_camsReferenceNumber = None,
      txn_remarks = Some (''SIP execution for SIP ID: '' @ sip_sipId s)\<rparr>"

text \<open>
  \<open>execute(nav)\<close> at clock reading \<open>now\<close>, with the generated transaction id. The created
  transaction stays in the store when the processing throws.
\<close>

definition execute ::
  "timestamp \<Rightarrow> string \<Rightarrow> rat \<Rightarrow> sip \<Rightarrow> database
     \<Rightarrow> error \<times> database + transaction \<times> sip \<times> database" where
  "execute now transactionId nav s db =
     (case Transaction_create (sip_transactionData now transactionId nav s) db of
        (t, db1) \<Rightarrow>
          (case process now (Some nav) t db1 of
             Inl e \<Rightarrow> Inl (e, db1)
           | Inr (t', db2) \<Rightarrow>
               (case updateAfterExecution s db2 of
                  (s', db3) \<Rightarrow> Inr (t', s', db3))))"

text \<open>
  The loop of \<open>startSIPExecution\<close>: each execution has a \<open>catch\<close> of its own, so the
  loop goes on after a failure.
\<close>

record sip_input =
  ex_clock :: timestamp
  ex_transactionId :: string

fun sip_loop :: "(nat \<Rightarrow> sip_input) \<Rightarrow> nat \<Rightarrow> (sip \<times> rat) list \<Rightarrow> database \<Rightarrow> database" where
  "sip_loop inp k [] db = db"
| "sip_loop inp k ((s, nav) # rest) db =
     (case execute (ex_clock (inp k)) (ex_transactionId (inp k)) nav s db of
        Inl (e, db') \<Rightarrow> sip_loop inp (k + 1) rest db'
      | Inr (t, s', db') \<Rightarrow> sip_loop inp (k + 1) rest db')"

definition sip_tick :: "date \<Rightarrow> (nat \<Rightarrow> sip_input) \<Rightarrow> database \<Rightarrow> database" where
  "sip_tick today inp db = sip_loop inp 0 (findDueForExecution today db) db"

section \<open>Scheme\<close>

text \<open>\<open>simulateNAVMovement()\<close> with its draw: the relative change, then the new NAV.\<close>

definition nav_change :: "string \<Rightarrow> rat \<Rightarrow> rat" where
  "nav_change category r =
     (if category = ''EQUITY'' then (r - 1 / 2) * (4 / 100)
      else if category = ''DEBT'' then (r - 1 / 2) * (4 / 1000)
      else if category = ''HYBRID'' then (r - 1 / 2) * (2 / 100)
      else (r - 1 / 2) * (2 / 100))"

definition simulateNAVMovement :: "scheme \<Rightarrow> rat \<Rightarrow> rat" where
  "simulateNAVMovement s r =
     (let change = nav_change (scheme_category s) r;
          newNav = toFixed 4 (scheme_nav s * (1 + change))
      in max newNav 1)"

definition Scheme_findAll :: "nat \<Rightarrow> database \<Rightarrow> scheme list" where
  "Scheme_findAll limit db =
     take limit (sort_key scheme_name (filter scheme_isActive (schemes db)))"



section \<open>Customer and Folio\<close>

text \<open>\<open>Customer.findAll(limit)\<close>: the most recently created customers first.\<close>

definition Customer_findAll :: "nat \<Rightarrow> database \<Rightarrow> customer list" where
  "Customer_findAll limit db =
     take limit (rev (sort_key customer_createdAt (customers db)))"

definition active_folio_count :: "database \<Rightarrow> nat \<Rightarrow> nat" where
  "active_folio_count db cid =
     length (filter (\<lambda>f. folio_customerId f = cid \<and> folio_status f = ''ACTIVE'')
               (folios db))"

text \<open>
  \<open>Customer.getCustomersEligibleForNewFolio(maxFolios)\<close>: the customers whose count of
  ACTIVE folios is below the bound, ten of them in the order of the value that
  \<open>RANDOM()\<close> gives each row.
\<close>

definition getCustomersEligibleForNewFolio ::
  "nat \<Rightarrow> (customer \<Rightarrow> rat) \<Rightarrow> database \<Rightarrow> customer list" where
  "getCustomersEligibleForNewFolio maxFolios rnd db =
     take 10 (sort_key rnd
       (filter (\<lambda>c. active_folio_count db (customer_id c) < maxFolios) (customers db)))"

definition generateRandomFolio :: "nat \<Rightarrow> nat \<Rightarrow> folio" where
  "generateRandomFolio customerId schemeId =
     \<lparr>folio_id = 0, folio_customerId = customerId, folio_schemeId = schemeId,
      folio_status = ''ACTIVE''\<rparr>"

definition Folio_create :: "folio \<Rightarrow> database \<Rightarrow> folio \<times> database" where
  "Folio_create folioData db =
     (let row = folioData
            \<lparr>folio_id := folios_id_seq db,
             folio_status := (if folio_status folioData = [] then ''ACTIVE''
                              else folio_status folioData)\<rparr>
      in (row, db\<lparr>folios := folios db @ [row], folios_id_seq := folios_id_seq db + 1\<rparr>))"

definition SIP_create :: "sip \<Rightarrow> database \<Rightarrow> sip \<times> database" where
  "SIP_create sipData db =
     (let row = sipData
            \<lparr>sip_id := sip_registrations_id_seq db,
             sip_status := (if sip_status sipData = [] then sip_ACTIVE
                            else sip_status sipData),
             sip_executionCount := 0,
             sip_maxExecutions :=
               (case sip_maxExecutions sipData of
                  None \<Rightarrow> None
                | Some m \<Rightarrow> if m = 0 then None else Some m)\<rparr>
      in (new_SIP row,
          db\<lparr>sip_registrations := sip_registrations db @ [row],
             sip_registrations_id_seq := sip_registrations_id_seq db + 1\<rparr>))"

section \<open>Simulation service\<close>

record stats =
  customersCreated :: nat
  foliosCreated :: nat
  transactionsCreated :: nat
  sipsCreated :: nat
  camsProcessed :: nat

record simulation =
  isRunning :: bool
  isPaused :: bool
  startTime :: "timestamp option"
  intervals :: "string list"
  stats :: stats

type_synonym log = "string \<times> string"

text \<open>
  What the folio creation reads from outside the store: the draws for the customer, the
  scheme and the SIP decision, the value of \<open>RANDOM()\<close> for each customer row, and the
  registration that \<open>SIP.generateRandomSIP\<close> would generate.
\<close>

record pick_input =
  pk_customer :: rat
  pk_scheme :: rat
  pk_sip :: rat
  pk_row :: "customer \<Rightarrow> rat"
  pk_sipData :: sip

definition createSIPForFolio ::
  "sip \<Rightarrow> nat \<Rightarrow> nat \<Rightarrow> nat \<Rightarrow> database \<times> stats \<Rightarrow> database \<times> stats" where
  "createSIPForFolio generated folioId customerId schemeId state =
     (case state of
        (db, st) \<Rightarrow>
          (case SIP_create (generated\<lparr>sip_folioId := folioId,
                                       sip_customerId := customerId,
                                       sip_schemeId := schemeId\<rparr>) db of
             (s, db') \<Rightarrow> (db', st\<lparr>sipsCreated := sipsCreated st + 1\<rparr>)))"

text \<open>
  \<open>createFolioForNewCustomer()\<close>. A missing element (an index out of range) makes the
  access to its id throw; the \<open>catch\<close> ends the call.
\<close>

definition createFolioForNewCustomer :: "pick_input \<Rightarrow> database \<times> stats \<Rightarrow> database \<times> stats" where
  "createFolioForNewCustomer inp state =
     (case state of
        (db, st) \<Rightarrow>
          (let customerRows = Customer_findAll 10 db
           in if customerRows = [] then (db, st)
              else case getRandomElement (pk_customer inp) customerRows of
                None \<Rightarrow> (db, st)
              | Some customer \<Rightarrow>
                  (let schemeRows = Scheme_findAll 10 db
                   in if schemeRows = [] then (db, st)
                      else case getRandomElement (pk_scheme inp) schemeRows of
                        None \<Rightarrow> (db, st)
                      | Some scheme \<Rightarrow>
                          (case Folio_create
                                  (generateRandomFolio (customer_id customer) (scheme_id scheme))
                                  db of
                             (folio, db') \<Rightarrow>
                               (let st' = st\<lparr>foliosCreated := foliosCreated st + 1\<rparr>
                                in if randomBoolean (pk_sip inp) (6 / 10)
                                   then createSIPForFolio (pk_sipData inp) (folio_id folio)
                                          (customer_id customer) (scheme_id scheme) (db', st')
                                   else (db', st'))))))"

definition createFolioForExistingCustomer ::
  "config \<Rightarrow> pick_input \<Rightarrow> database \<times> stats \<Rightarrow> database \<times> stats" where
  "createFolioForExistingCustomer cfg inp state =
     (case state of
        (db, st) \<Rightarrow>
          (let eligibleCustomers =
                 getCustomersEligibleForNewFolio (maxFoliosPerCustomer cfg) (pk_row inp) db
           in if eligibleCustomers = [] then (db, st)
              else case getRandomElement (pk_customer inp) eligibleCustomers of
                None \<Rightarrow> (db, st)
              | Some customer \<Rightarrow>
                  (let schemeRows = Scheme_findAll 10 db
                   in if schemeRows = [] then (db, st)
                      else case getRandomElement (pk_scheme inp) schemeRows of
                        None \<Rightarrow> (db, st)
                      | Some scheme \<Rightarrow>
                          (case Folio_create
                                  (generateRandomFolio (customer_id customer) (scheme_id scheme))
                                  db of
                             (folio, db') \<Rightarrow>
                               (db', st\<lparr>foliosCreated := foliosCreated st + 1\<rparr>)))))"

text \<open>The body of the timer of \<open>startFolioCreation\<close>, with its two draws.\<close>

definition folio_tick ::
  "config \<Rightarrow> rat \<Rightarrow> rat \<Rightarrow> pick_input \<Rightarrow> pick_input \<Rightarrow> database \<times> stats
     \<Rightarrow> database \<times> stats" where
  "folio_tick cfg r1 r2 inp1 inp2 state =
     (let state1 = (if randomBoolean r1 (7 / 10) then createFolioForNewCustomer inp1 state
                    else state)
      in if randomBoolean r2 (3 / 10) then createFolioForExistingCustomer cfg inp2 state1
         else state1)"

text \<open>
  One round of the loop of the manual \<open>createFolios(count)\<close>, and the loop. An error is
  thrown to the caller; what the earlier rounds did stays.
\<close>

definition createFolios_round ::
  "pick_input \<Rightarrow> database \<times> stats \<Rightarrow> error \<times> database \<times> stats + folio \<times> database \<times> stats" where
  "createFolios_round inp state =
     (case state of
        (db, st) \<Rightarrow>
          (let customerRows = Customer_findAll 50 db
           in if customerRows = [] then Inl (NoCustomers, db, st)
              else case getRandomElement (pk_customer inp) customerRows of
                None \<Rightarrow> Inl (TypeError, db, st)
              | Some customer \<Rightarrow>
                  (let schemeRows = Scheme_findAll 10 db
                   in if schemeRows = [] then Inl (NoSchemes, db, st)
                      else case getRandomElement (pk_scheme inp) schemeRows of
                        None \<Rightarrow> Inl (TypeError, db, st)
                      | Some scheme \<Rightarrow>
                          (case Folio_create
                                  (generateRandomFolio (customer_id customer) (scheme_id scheme))
                                  db of
                             (folio, db') \<Rightarrow>
                               (let st' = st\<lparr>foliosCreated := foliosCreated st + 1\<rparr>
                                in if randomBoolean (pk_sip inp) (5 / 10)
                                   then (case createSIPForFolio (pk_sipData inp) (folio_id folio)
                                                (customer_id customer) (scheme_id scheme) (db', st') of
                                           (db2, st2) \<Rightarrow> Inr (folio, db2, st2))
                                   else Inr (folio, db', st'))))))"

fun createFolios_loop ::
  "(nat \<Rightarrow> pick_input) \<Rightarrow> nat \<Rightarrow> nat \<Rightarrow> folio list \<Rightarrow> database \<times> stats
     \<Rightarrow> error \<times> database \<times> stats + folio list \<times> database \<times> stats" where
  "createFolios_loop inp i 0 created state = Inr (created, state)"
| "createFolios_loop inp i (Suc n) created state =
     (case createFolios_round (inp i) state of
        Inl failure \<Rightarrow> Inl failure
      | Inr (folio, state') \<Rightarrow> createFolios_loop inp (i + 1) n (created @ [folio]) state')"

definition createFolios ::
  "nat \<Rightarrow> (nat \<Rightarrow> pick_input) \<Rightarrow> database \<times> stats
     \<Rightarrow> error \<times> database \<times> stats + folio list \<times> database \<times> stats" where
  "createFolios count inp state = createFolios_loop inp 0 count [] state"

text \<open>
  The interval registry is the list of its keys. Each \<open>start...\<close> method stores a handle
  under its key and logs a line.
\<close>

definition register :: "string \<Rightarrow> string list \<Rightarrow> string list" where
  "register k ks = (if k \<in> set ks then ks else ks @ [k])"

definition start_tasks :: "string list \<Rightarrow> string list" where
  "start_tasks ks =
     register ''navUpdates'' (register ''sipExecution'' (register ''camsProcessing''
       (register ''transactionSimulation'' (register ''folioCreation''
         (register ''customerCreation'' ks)))))"

definition start_tasks_log :: "log list" where
  "start_tasks_log =
     [(''info'', ''Started customer creation simulation''),
      (''info'', ''Started folio creation simulation''),
      (''info'', ''Started transaction simulation''),
      (''info'', ''Started CAMS processing simulation''),
      (''info'', ''Started SIP execution simulation''),
      (''info'', ''Started NAV update simulation'')]"

definition zero_stats :: stats where
  "zero_stats =
     \<lparr>customersCreated = 0, foliosCreated = 0, transactionsCreated = 0, sipsCreated = 0,
      camsProcessed = 0\<rparr>"

definition new_SimulationService :: simulation where
  "new_SimulationService =
     \<lparr>isRunning = False, isPaused = False, startTime = None, intervals = [],
      stats = zero_stats\<rparr>"

text \<open>
  Each operation returns the error it throws (if any), the lines it logs, and the state it
  leaves. The seeding of the default schemes is an argument of \<open>start\<close>: it leaves a store
  and may fail.
\<close>

definition start ::
  "timestamp \<Rightarrow> (database \<Rightarrow> error option \<times> database) \<Rightarrow> simulation \<times> database
     \<Rightarrow> error option \<times> log list \<times> simulation \<times> database" where
  "start now initializeSchemes state =
     (case state of
        (sim, db) \<Rightarrow>
          if isRunning sim then
            (None, [(''warn'', ''Simulation is already running'')], sim, db)
          else
            (let sim1 = sim\<lparr>isRunning := True, isPaused := False, startTime := Some now\<rparr>
             in case initializeSchemes db of
                  (Some e, db') \<Rightarrow>
                    (Some e,
                     [(''info'', ''Starting AMC simulation...''),
                      (''error'', ''Error starting simulation'')],
                     sim1\<lparr>isRunning := False\<rparr>, db')
                | (None, db') \<Rightarrow>
                    (None,
                     [(''info'', ''Starting AMC simulation...'')] @ start_tasks_log @
                     [(''info'', ''AMC simulation started successfully'')],
                     sim1\<lparr>intervals := start_tasks (intervals sim1)\<rparr>, db')))"

definition stop :: "simulation \<Rightarrow> error option \<times> log list \<times> simulation" where
  "stop sim =
     (if \<not> isRunning sim then (None, [(''warn'', ''Simulation is not running'')], sim)
      else (None, [(''info'', ''AMC simulation stopped'')],
            sim\<lparr>isRunning := False, intervals := []\<rparr>))"

definition pause :: "simulation \<Rightarrow> error option \<times> log list \<times> simulation" where
  "pause sim =
     (if \<not> isRunning sim then (Some NotRunning, [], sim)
      else if isPaused sim then
        (None, [(''warn'', ''Simulation is already paused'')], sim)
      else (None, [(''info'', ''AMC simulation paused'')],
            sim\<lparr>intervals := [], isPaused := True\<rparr>))"

definition resume :: "simulation \<Rightarrow> error option \<times> log list \<times> simulation" where
  "resume sim =
     (if \<not> isRunning sim then (Some NotRunning, [], sim)
      else if \<not> isPaused sim then
        (None, [(''warn'', ''Simulation is not paused'')], sim)
      else (None, start_tasks_log @ [(''info'', ''AMC simulation resumed'')],
            sim\<lparr>intervals := start_tasks (intervals sim), isPaused := False\<rparr>))"

text \<open>The message of the error that \<open>pause\<close> and \<open>resume\<close> throw.\<close>

definition error_message :: "error \<Rightarrow> string" where
  "error_message e =
     (case e of
        NotRunning \<Rightarrow> ''Simulation is not running''
      | NoCustomers \<Rightarrow> ''No customers available for folio creation''
      | NoSchemes \<Rightarrow> ''No schemes available for folio creation''
      | _ \<Rightarrow> [])"

section \<open>Notions used to state the properties\<close>

text \<open>
  The \<open>j\<close>-th of \<open>100 * n\<close> equally spaced draws, and the two kinds of outcome that
  are not a success.
\<close>

definition draw_grid :: "nat \<Rightarrow> nat \<Rightarrow> rat" where
  "draw_grid n j = of_nat j / of_nat (100 * n)"

definition is_business_rejection :: "cams_outcome \<Rightarrow> bool" where
  "is_business_rejection outcome \<longleftrightarrow>
     \<not> outcome_success outcome \<and>
     (\<exists>x \<in> set rejection_reasons. outcome_reason outcome = Some x)"

definition is_technical_failure :: "cams_outcome \<Rightarrow> bool" where
  "is_technical_failure outcome \<longleftrightarrow>
     \<not> outcome_success outcome \<and>
     outcome_reason outcome = Some ''Technical failure - will retry''"


text \<open>
  The number of months by which a frequency advances the next execution date; a
  frequency that is none of the three counts as monthly.
\<close>

definition frequency_months :: "string \<Rightarrow> nat" where
  "frequency_months frequency =
     (if frequency = ''MONTHLY'' then 1
      else if frequency = ''QUARTERLY'' then 3
      else if frequency = ''YEARLY'' then 12
      else 1)"

text \<open>
  A run of \<open>n\<close> calls of \<open>execute\<close> on the same SIP object, each call with the clock, the
  transaction id and the NAV that the \<open>k\<close>-th call reads; \<open>None\<close> when one of the calls
  throws.
\<close>

fun execute_times ::
  "(nat \<Rightarrow> sip_input) \<Rightarrow> (nat \<Rightarrow> rat) \<Rightarrow> nat \<Rightarrow> nat \<Rightarrow> sip \<Rightarrow> database
     \<Rightarrow> (sip \<times> database) option" where
  "execute_times inp navs k 0 s db = Some (s, db)"
| "execute_times inp navs k (Suc n) s db =
     (case execute (ex_clock (inp k)) (ex_transactionId (inp k)) (navs k) s db of
        Inl failure \<Rightarrow> None
      | Inr (t, s', db') \<Rightarrow> execute_times inp navs (k + 1) n s' db')"

text \<open>
  What changes the SIP registrations after they are created: a pass of the SIP execution
  task, and a status update of an SIP object (\<open>pause\<close>, \<open>resume\<close>, \<open>cancel\<close>).
\<close>

datatype sip_event =
    SipPass date "nat \<Rightarrow> sip_input"
  | StatusUpdate string sip

fun apply_sip_event :: "sip_event \<Rightarrow> database \<Rightarrow> database" where
  "apply_sip_event (SipPass today inp) db = sip_tick today inp db"
| "apply_sip_event (StatusUpdate newStatus s) db = snd (updateStatus newStatus s db)"

fun run_sip_events :: "sip_event list \<Rightarrow> database \<Rightarrow> database" where
  "run_sip_events [] db = db"
| "run_sip_events (e # es) db = run_sip_events es (apply_sip_event e db)"

text \<open>
  The assignment that the UPDATE of \<open>updateAfterExecution\<close> makes to a row, as a function
  of the object that computes it.
\<close>

definition sip_assign :: "sip \<Rightarrow> sip \<Rightarrow> sip" where
  "sip_assign s r =
     (let newExecutionCount = sip_executionCount s + 1;
          nextExecutionDate =
            getNextSipExecutionDate (sip_frequency s)
              (date_of_nullable (sip_nextExecutionDate s));
          newStatus =
            (if (case sip_maxExecutions s of
                   None \<Rightarrow> False
                 | Some m \<Rightarrow> m \<noteq> 0 \<and> m \<le> newExecutionCount)
             then sip_COMPLETED
             else if (case sip_endDate s of
                        None \<Rightarrow> False
                      | Some e \<Rightarrow> e < nextExecutionDate)
             then sip_COMPLETED
             else sip_status s)
      in r\<lparr>sip_executionCount := newExecutionCount,
           sip_nextExecutionDate :=
             (if newStatus = sip_COMPLETED then None else Some nextExecutionDate),
           sip_status := newStatus\<rparr>)"


text \<open>
  Once the count of an SIP object has reached its maximum, the object and every row with
  its id are COMPLETED, have no next execution date, and carry the same count.
\<close>

definition sip_settled :: "nat \<Rightarrow> sip \<Rightarrow> database \<Rightarrow> bool" where
  "sip_settled i s db \<longleftrightarrow>
     (\<forall>m. sip_maxExecutions s = Some m \<and> m \<le> sip_executionCount s \<longrightarrow>
        sip_status s = ''COMPLETED'' \<and> sip_nextExecutionDate s = None \<and>
        (\<forall>r \<in> set (sip_registrations db). sip_id r = i \<longrightarrow>
           sip_status r = ''COMPLETED'' \<and> sip_nextExecutionDate r = None \<and>
           sip_executionCount r = sip_executionCount s))"

text \<open>Every row with id \<open>i\<close> has no next execution date and the execution count \<open>c\<close>.\<close>

definition retired :: "nat \<Rightarrow> nat \<Rightarrow> database \<Rightarrow> bool" where
  "retired i c db \<longleftrightarrow>
     (\<forall>r \<in> set (sip_registrations db). sip_id r = i \<longrightarrow>
        sip_nextExecutionDate r = None \<and> sip_executionCount r = c)"





section \<open>Example data\<close>

definition empty_database :: database where
  "empty_database =
     \<lparr>customers = [], schemes = [], folios = [], folios_id_seq = 1, transactions = [],
      transactions_id_seq = 1, sip_registrations = [], sip_registrations_id_seq = 1,
      holdings = Map.empty\<rparr>"

definition example_transaction :: transaction where
  "example_transaction =
     \<lparr>txn_id = 1, txn_transactionId = ''TXN1'', txn_folioId = 1, txn_schemeId = 1,
      txn_customerId = 1, txn_transactionType = ''PURCHASE'', txn_transactionMode = ''LUMPSUM'',
      txn_amount = 5000, txn_units = 0, txn_nav = Some 10, txn_transactionDate = 0,
      txn_processDate = None, txn_settlementDate = None, txn_status = ''SUBMITTED'',
      txn_camsStatus = ''PENDING'', txn_camsProcessedDate = None,
      txn_camsReferenceNumber = None, txn_remarks = None\<rparr>"

definition example_scheme :: scheme where
  "example_scheme =
     \<lparr>scheme_id = 1, scheme_name = ''Growth Fund'', scheme_category = ''EQUITY'',
      scheme_nav = 10, scheme_isActive = True\<rparr>"

definition example_database :: database where
  "example_database =
     empty_database\<lparr>schemes := [example_scheme], transactions := [example_transaction],
       transactions_id_seq := 2\<rparr>"

definition running_simulation :: simulation where
  "running_simulation =
     \<lparr>isRunning = True, isPaused = False, startTime = Some 0,
      intervals = start_tasks [], stats = zero_stats\<rparr>"



definition success_input :: cams_input where
  "success_input =
     \<lparr>in_clock = 0, in_random = 1 / 2, in_pick = 1 / 2, in_camsReference = ''CAMS1''\<rparr>"

definition example_sip :: sip where
  "example_sip =
     \<lparr>sip_id = 1, sip_sipId = ''SIP1'', sip_customerId = 1, sip_folioId = 1,
      sip_schemeId = 1, sip_amount = 1000, sip_frequency = ''MONTHLY'',
      sip_startDate = (2024, 0, 1), sip_endDate = None,
      sip_nextExecutionDate = Some (2024, 0, 1), sip_status = ''ACTIVE'',
      sip_executionCount = 0, sip_maxExecutions = Some 2\<rparr>"

definition sip_database :: database where
  "sip_database =
     example_database\<lparr>sip_registrations := [example_sip], sip_registrations_id_seq := 2\<rparr>"

definition example_sip_input :: "nat \<Rightarrow> sip_input" where
  "example_sip_input k = \<lparr>ex_clock = 0, ex_transactionId = ''TXN2''\<rparr>"


text \<open>
  A store in which the only customer already holds as many ACTIVE folios as the bound
  \<open>maxFoliosPerCustomer = 1\<close> allows.
\<close>

definition capped_config :: config where
  "capped_config = \<lparr>maxFoliosPerCustomer = 1, camsProcessingDelay = 300000\<rparr>"

definition capped_database :: database where
  "capped_database =
     empty_database
       \<lparr>customers := [\<lparr>customer_id = 1, customer_createdAt = 0\<rparr>],
        schemes := [example_scheme],
        folios := [\<lparr>folio_id = 1, folio_customerId = 1, folio_schemeId = 1,
                    folio_status = ''ACTIVE''\<rparr>],
        folios_id_seq := 2\<rparr>"

definition example_pick :: pick_input where
  "example_pick =
     \<lparr>pk_customer = 0, pk_scheme = 0, pk_sip = 9 / 10, pk_row = (\<lambda>c. 0),
      pk_sipData = example_sip\<rparr>"


section \<open>Numbers and draws\<close>

lemma toFixed_error: "\<bar>toFixed f x - x\<bar> \<le> 1 / (2 * 10 ^ f)"
proof -
  have pos: "(0::rat) < 10 ^ f" by simp
  have key: "\<bar>of_int \<lfloor>y * 10 ^ f + 1 / 2\<rfloor> / 10 ^ f - y\<bar> \<le> 1 / (2 * 10 ^ f)" for y :: rat
  proof -
    define z where "z = y * 10 ^ f + 1 / 2"
    define k :: rat where "k = of_int \<lfloor>z\<rfloor>"
    have a: "k \<le> z" and b: "z < k + 1" unfolding k_def by linarith+
    have "k / 10 ^ f - y = (k - y * 10 ^ f) / 10 ^ f"
      using pos by (simp add: field_simps)
    then have "\<bar>k / 10 ^ f - y\<bar> = \<bar>k - y * 10 ^ f\<bar> / 10 ^ f"
      using pos by simp
    moreover have le: "\<bar>k - y * 10 ^ f\<bar> \<le> 1 / 2"
      using a b unfolding z_def by linarith
    have "\<bar>k - y * 10 ^ f\<bar> / 10 ^ f \<le> (1 / 2) / 10 ^ f"
      by (rule divide_right_mono[OF le]) simp
    ultimately have "\<bar>k / 10 ^ f - y\<bar> \<le> (1 / 2) / 10 ^ f"
      by simp
    then show ?thesis unfolding z_def k_def by simp
  qed
  show ?thesis
  proof (cases "x < 0")
    case True
    have "\<bar>toFixed f x - x\<bar> = \<bar>of_int \<lfloor>(- x) * 10 ^ f + 1 / 2\<rfloor> / 10 ^ f - (- x)\<bar>"
      using True by (simp add: toFixed_def abs_minus_commute) 
    then show ?thesis using key[of "- x"] by simp
  next
    case False
    then show ?thesis using key[of x] by (simp add: toFixed_def)
  qed
qed

lemma getRandomElement_in:
  assumes "is_draw r" "xs \<noteq> []"
  shows "\<exists>x \<in> set xs. getRandomElement r xs = Some x"
proof -
  have "r * of_nat (length xs) < of_nat (length xs)"
    using assms by (simp add: is_draw_def)
  then have "\<lfloor>r * of_nat (length xs)\<rfloor> < int (length xs)"
    by (simp add: floor_less_iff)
  moreover have "0 < length xs" using assms by simp
  ultimately have "nat \<lfloor>r * of_nat (length xs)\<rfloor> < length xs"
    by linarith
  then show ?thesis by (auto simp: getRandomElement_def Let_def)
qed

lemma draw_fraction_less:
  assumes "0 < n"
  shows "(of_nat j :: rat) / of_nat (100 * n) < of_nat p / 100 \<longleftrightarrow> j < p * n"
proof -
  have "(of_nat j :: rat) / of_nat (100 * n) < of_nat p / 100
      \<longleftrightarrow> (of_nat j :: rat) * 100 < of_nat p * of_nat (100 * n)"
    using assms by (simp add: field_simps)
  also have "\<dots> \<longleftrightarrow> (of_nat (j * 100) :: rat) < of_nat (p * (100 * n))" by simp
  also have "\<dots> \<longleftrightarrow> j * 100 < p * (100 * n)" by (simp only: of_nat_less_iff)
  also have "\<dots> \<longleftrightarrow> j < p * n" by simp
  finally show ?thesis .
qed

section \<open>Outcomes of the simulated settlement\<close>

lemma draw_grid_is_draw: "0 < n \<Longrightarrow> j < 100 * n \<Longrightarrow> is_draw (draw_grid n j)"
  by (simp add: is_draw_def draw_grid_def)

lemma draw_grid_less: "0 < n \<Longrightarrow> draw_grid n j < of_nat p / 100 \<longleftrightarrow> j < p * n"
  unfolding draw_grid_def by (rule draw_fraction_less)

lemma technical_not_rejection: "''Technical failure - will retry'' \<notin> set rejection_reasons"
  by (simp add: rejection_reasons_def)

lemma simulate_success: "random < 85 / 100 \<Longrightarrow>
  simulateCAMSProcessing random pick = \<lparr>outcome_success = True, outcome_reason = None\<rparr>"
  by (simp add: simulateCAMSProcessing_def)

lemma simulate_rejection:
  assumes "85 / 100 \<le> random" "random < 95 / 100" "is_draw pick"
  shows "is_business_rejection (simulateCAMSProcessing random pick)"
proof -
  have "rejection_reasons \<noteq> []" by (simp add: rejection_reasons_def)
  from getRandomElement_in[OF assms(3) this] assms(1,2) show ?thesis
    by (auto simp: simulateCAMSProcessing_def is_business_rejection_def)
qed

lemma simulate_technical: "95 / 100 \<le> random \<Longrightarrow>
  simulateCAMSProcessing random pick =
    \<lparr>outcome_success = False, outcome_reason = Some ''Technical failure - will retry''\<rparr>"
  by (simp add: simulateCAMSProcessing_def)

lemma rejection_iff:
  assumes "is_draw pick"
  shows "is_business_rejection (simulateCAMSProcessing random pick)
     \<longleftrightarrow> 85 / 100 \<le> random \<and> random < 95 / 100"
proof (cases "random < 85 / 100")
  case True
  then show ?thesis by (simp add: simulate_success is_business_rejection_def)
next
  case False
  show ?thesis
  proof (cases "random < 95 / 100")
    case True
    with False simulate_rejection[OF _ True assms] show ?thesis by simp
  next
    case False
    then have "95 / 100 \<le> random" by simp
    from simulate_technical[OF this] technical_not_rejection False show ?thesis
      by (auto simp: is_business_rejection_def)
  qed
qed

lemma technical_iff:
  assumes "is_draw pick"
  shows "is_technical_failure (simulateCAMSProcessing random pick) \<longleftrightarrow> 95 / 100 \<le> random"
proof (cases "random < 85 / 100")
  case True
  then show ?thesis by (simp add: simulate_success is_technical_failure_def)
next
  case False
  show ?thesis
  proof (cases "random < 95 / 100")
    case True
    with False have "is_business_rejection (simulateCAMSProcessing random pick)"
      using simulate_rejection assms by simp
    with technical_not_rejection True show ?thesis
      by (auto simp: is_business_rejection_def is_technical_failure_def)
  next
    case False
    then have "95 / 100 \<le> random" by simp
    from simulate_technical[OF this] this show ?thesis
      by (simp add: is_technical_failure_def)
  qed
qed

lemma count_success:
  assumes "0 < n"
  shows "card {j. j < 100 * n \<and> outcome_success (simulateCAMSProcessing (draw_grid n j) pick)} = 85 * n"
proof -
  have "j < 100 * n \<and> outcome_success (simulateCAMSProcessing (draw_grid n j) pick) \<longleftrightarrow> j < 85 * n" for j
    using draw_grid_less[OF assms, of j 85] by (simp add: simulateCAMSProcessing_def)
  then have "{j. j < 100 * n \<and> outcome_success (simulateCAMSProcessing (draw_grid n j) pick)} = {..<85 * n}"
    by (simp add: lessThan_def)
  then show ?thesis by simp
qed

lemma count_rejection:
  assumes "0 < n" "is_draw pick"
  shows "card {j. j < 100 * n \<and> is_business_rejection (simulateCAMSProcessing (draw_grid n j) pick)} = 10 * n"
proof -
  have "j < 100 * n \<and> is_business_rejection (simulateCAMSProcessing (draw_grid n j) pick)
      \<longleftrightarrow> 85 * n \<le> j \<and> j < 95 * n" for j
    using draw_grid_less[OF assms(1), of j 85] draw_grid_less[OF assms(1), of j 95]
    by (simp add: rejection_iff[OF assms(2)] not_less[symmetric]) linarith
  then have "{j. j < 100 * n \<and> is_business_rejection (simulateCAMSProcessing (draw_grid n j) pick)}
     = {85 * n..<95 * n}"
    by (simp add: atLeastLessThan_def atLeast_def lessThan_def Int_def)
  then show ?thesis by simp
qed

lemma count_technical:
  assumes "0 < n" "is_draw pick"
  shows "card {j. j < 100 * n \<and> is_technical_failure (simulateCAMSProcessing (draw_grid n j) pick)} = 5 * n"
proof -
  have "j < 100 * n \<and> is_technical_failure (simulateCAMSProcessing (draw_grid n j) pick)
      \<longleftrightarrow> 95 * n \<le> j \<and> j < 100 * n" for j
    using draw_grid_less[OF assms(1), of j 95]
    by (simp add: technical_iff[OF assms(2)] not_less[symmetric]) linarith
  then have "{j. j < 100 * n \<and> is_technical_failure (simulateCAMSProcessing (draw_grid n j) pick)}
     = {95 * n..<100 * n}"
    by (simp add: atLeastLessThan_def atLeast_def lessThan_def Int_def)
  then show ?thesis by simp
qed

lemma returning_Nil_iff: "returning p f rows = [] \<longleftrightarrow> (\<forall>r \<in> set rows. \<not> p r)"
  by (simp add: returning_def filter_empty_conv)

lemma returning_Cons: "returning p f rows = row # rest \<Longrightarrow> \<exists>r \<in> set rows. p r \<and> row = f r"
proof -
  assume "returning p f rows = row # rest"
  then have "row \<in> set (map f (filter p rows))" by (simp add: returning_def)
  then show ?thesis by auto
qed

lemma update_where_mem:
  "r' \<in> set (update_where p f rows) \<longleftrightarrow> (\<exists>r \<in> set rows. r' = (if p r then f r else r))"
  by (auto simp: update_where_def)

lemma updateCAMSStatus_rows:
  assumes "updateCAMSStatus now st ref t db = (t', db')"
    and "r \<in> set (transactions db')" and "txn_id r = txn_id t"
  shows "txn_camsStatus r = st"
proof -
  from assms(1) have "transactions db' = update_where (\<lambda>r. txn_id r = txn_id t)
      (\<lambda>r. r\<lparr>txn_camsStatus := st, txn_camsProcessedDate := Some now,
               txn_camsReferenceNumber := ref\<rparr>) (transactions db)"
    by (auto simp: updateCAMSStatus_def Let_def split: list.splits)
  with assms(2) obtain r0 where "r0 \<in> set (transactions db)"
    and r: "r = (if txn_id r0 = txn_id t then r0\<lparr>txn_camsStatus := st, txn_camsProcessedDate := Some now,
               txn_camsReferenceNumber := ref\<rparr> else r0)"
    by (auto simp: update_where_mem)
  with assms(3) show ?thesis by (cases "txn_id r0 = txn_id t") auto
qed

lemma updateCAMSStatus_object:
  assumes "updateCAMSStatus now st ref t db = (t', db')"
    and "\<exists>r \<in> set (transactions db). txn_id r = txn_id t"
  shows "txn_camsStatus t' = st \<and> txn_id t' = txn_id t"
proof -
  let ?f = "\<lambda>r. r\<lparr>txn_camsStatus := st, txn_camsProcessedDate := Some now,
               txn_camsReferenceNumber := ref\<rparr>"
  from assms(2) have "returning (\<lambda>r. txn_id r = txn_id t) ?f (transactions db) \<noteq> []"
    by (simp add: returning_Nil_iff)
  then obtain row rest where rr: "returning (\<lambda>r. txn_id r = txn_id t) ?f (transactions db) = row # rest"
    by (cases "returning (\<lambda>r. txn_id r = txn_id t) ?f (transactions db)") auto
  from returning_Cons[OF rr] have "txn_camsStatus row = st \<and> txn_id row = txn_id t" by auto
  moreover from assms(1) rr have "t' = row" by (simp add: updateCAMSStatus_def Let_def)
  ultimately show ?thesis by simp
qed

lemma cams_settle_failure:
  assumes "\<not> outcome_success (simulateCAMSProcessing (in_random inp) (in_pick inp))"
  shows "\<exists>t' db'. cams_settle inp t db n = Inr (t', db', n) \<and>
           (\<forall>r \<in> set (transactions db'). txn_id r = txn_id t \<longrightarrow> txn_camsStatus r = cams_REJECTED) \<and>
           ((\<exists>r \<in> set (transactions db). txn_id r = txn_id t) \<longrightarrow> txn_camsStatus t' = cams_REJECTED)"
proof -
  obtain t' db' where u: "updateCAMSStatus (in_clock inp) cams_REJECTED
                   (Some (in_camsReference inp)) t db = (t', db')"
    by (cases "updateCAMSStatus (in_clock inp) cams_REJECTED (Some (in_camsReference inp)) t db")
  with assms have "cams_settle inp t db n = Inr (t', db', n)"
    by (simp add: cams_settle_def Let_def)
  with updateCAMSStatus_rows[OF u] updateCAMSStatus_object[OF u] show ?thesis by blast
qed

text \<open>
  Claim C9. \<open>simulateCAMSProcessing()\<close> succeeds exactly when its draw is below 0.85,
  gives a business rejection (a reason from the five fixed ones) exactly when the draw
  lies in [0.85, 0.95), and gives the technical failure exactly when the draw is at least
  0.95. Over \<open>100 * n\<close> equally spaced draws the three outcomes occur \<open>85 * n\<close>,
  \<open>10 * n\<close> and \<open>5 * n\<close> times. With either outcome that is not a success the
  settlement task sets the settlement status of the transaction to REJECTED.
\<close>

theorem simulateCAMSProcessing_distribution:
  assumes "is_draw random" and "is_draw pick"
  shows "(outcome_success (simulateCAMSProcessing random pick) \<longleftrightarrow> random < 85 / 100) \<and>
    (is_business_rejection (simulateCAMSProcessing random pick)
       \<longleftrightarrow> 85 / 100 \<le> random \<and> random < 95 / 100) \<and>
    (is_technical_failure (simulateCAMSProcessing random pick) \<longleftrightarrow> 95 / 100 \<le> random) \<and>
    length rejection_reasons = 5 \<and> distinct rejection_reasons \<and>
    (\<forall>n > 0.
       card {j. j < 100 * n \<and> outcome_success (simulateCAMSProcessing (draw_grid n j) pick)}
         = 85 * n \<and>
       card {j. j < 100 * n \<and> is_business_rejection (simulateCAMSProcessing (draw_grid n j) pick)}
         = 10 * n \<and>
       card {j. j < 100 * n \<and> is_technical_failure (simulateCAMSProcessing (draw_grid n j) pick)}
         = 5 * n) \<and>
    (\<forall>inp t db n.
       \<not> outcome_success (simulateCAMSProcessing (in_random inp) (in_pick inp)) \<longrightarrow>
       (\<exists>t' db'. cams_settle inp t db n = Inr (t', db', n) \<and>
          (\<forall>r \<in> set (transactions db').
             txn_id r = txn_id t \<longrightarrow> txn_camsStatus r = cams_REJECTED) \<and>
          ((\<exists>r \<in> set (transactions db). txn_id r = txn_id t) \<longrightarrow>
             txn_camsStatus t' = cams_REJECTED)))"
proof -
  have a: "outcome_success (simulateCAMSProcessing random pick) \<longleftrightarrow> random < 85 / 100"
    by (simp add: simulateCAMSProcessing_def)
  have b1: "length rejection_reasons = 5" and b2: "distinct rejection_reasons"
    by (simp_all add: rejection_reasons_def)
  have c: "\<forall>n > 0.
       card {j. j < 100 * n \<and> outcome_success (simulateCAMSProcessing (draw_grid n j) pick)}
         = 85 * n \<and>
       card {j. j < 100 * n \<and> is_business_rejection (simulateCAMSProcessing (draw_grid n j) pick)}
         = 10 * n \<and>
       card {j. j < 100 * n \<and> is_technical_failure (simulateCAMSProcessing (draw_grid n j) pick)}
         = 5 * n"
  proof (intro allI impI conjI)
    fix n :: nat
    assume n: "0 < n"
    show "card {j. j < 100 * n \<and> outcome_success (simulateCAMSProcessing (draw_grid n j) pick)}
         = 85 * n"
      by (rule count_success[OF n])
    show "card {j. j < 100 * n \<and> is_business_rejection (simulateCAMSProcessing (draw_grid n j) pick)}
         = 10 * n"
      by (rule count_rejection[OF n assms(2)])
    show "card {j. j < 100 * n \<and> is_technical_failure (simulateCAMSProcessing (draw_grid n j) pick)}
         = 5 * n"
      by (rule count_technical[OF n assms(2)])
  qed
  have d: "\<forall>inp t db n.
       \<not> outcome_success (simulateCAMSProcessing (in_random inp) (in_pick inp)) \<longrightarrow>
       (\<exists>t' db'. cams_settle inp t db n = Inr (t', db', n) \<and>
          (\<forall>r \<in> set (transactions db').
             txn_id r = txn_id t \<longrightarrow> txn_camsStatus r = cams_REJECTED) \<and>
          ((\<exists>r \<in> set (transactions db). txn_id r = txn_id t) \<longrightarrow>
             txn_camsStatus t' = cams_REJECTED))"
    by (intro allI impI) (rule cams_settle_failure)
  from a rejection_iff[OF assms(2)] technical_iff[OF assms(2)] b1 b2 c d
  show ?thesis by (intro conjI)
qed

theorem simulateCAMSProcessing_distribution_witness:
  "is_draw (9 / 10) \<and> is_draw (1 / 2) \<and>
   \<not> outcome_success (simulateCAMSProcessing (9 / 10) (1 / 2)) \<and>
   is_business_rejection (simulateCAMSProcessing (9 / 10) (1 / 2)) \<and>
   card {j. j < 100 * 1 \<and> outcome_success (simulateCAMSProcessing (draw_grid 1 j) (1 / 2))}
     = 85 * 1 \<and>
   (\<exists>t' db'.
      cams_settle \<lparr>in_clock = 0, in_random = 9 / 10, in_pick = 1 / 2,
                   in_camsReference = ''CAMS1''\<rparr>
        example_transaction example_database 0 = Inr (t', db', 0) \<and>
      txn_camsStatus t' = cams_REJECTED)"
proof -
  let ?inp = "\<lparr>in_clock = 0, in_random = 9 / 10, in_pick = 1 / 2,
               in_camsReference = ''CAMS1''\<rparr>"
  have h1: "is_draw (9 / 10)" and h2: "is_draw (1 / 2)" by (simp_all add: is_draw_def)
  have h3: "\<exists>r \<in> set (transactions example_database). txn_id r = txn_id example_transaction"
    by (simp add: example_database_def)
  have h4: "\<not> outcome_success (simulateCAMSProcessing (in_random ?inp) (in_pick ?inp))"
    by (simp add: simulateCAMSProcessing_def)
  note inst = simulateCAMSProcessing_distribution[OF h1 h2]
  note p1 = inst[THEN conjunct1]
  note p2 = inst[THEN conjunct2, THEN conjunct1]
  note p6 = inst[THEN conjunct2, THEN conjunct2, THEN conjunct2, THEN conjunct2,
      THEN conjunct2, THEN conjunct1]
  note p7 = inst[THEN conjunct2, THEN conjunct2, THEN conjunct2, THEN conjunct2,
      THEN conjunct2, THEN conjunct2]
  have w3: "\<not> outcome_success (simulateCAMSProcessing (9 / 10) (1 / 2))"
    using p1 by simp
  have w4: "is_business_rejection (simulateCAMSProcessing (9 / 10) (1 / 2))"
    using p2 by simp
  have w5: "card {j. j < 100 * 1 \<and> outcome_success (simulateCAMSProcessing (draw_grid 1 j) (1 / 2))}
     = 85 * 1"
    by (rule p6[rule_format, OF zero_less_one, THEN conjunct1])
  from p7[rule_format, where inp = ?inp and t = example_transaction
      and db = example_database and n = 0, OF h4]
  obtain t' db' where s: "cams_settle ?inp example_transaction example_database 0 = Inr (t', db', 0)"
    and imp: "(\<exists>r \<in> set (transactions example_database). txn_id r = txn_id example_transaction)
       \<longrightarrow> txn_camsStatus t' = cams_REJECTED"
    by (elim exE conjE)
  from imp h3 have "txn_camsStatus t' = cams_REJECTED" by (rule mp)
  with s have w6: "\<exists>t' db'. cams_settle ?inp example_transaction example_database 0 = Inr (t', db', 0) \<and>
      txn_camsStatus t' = cams_REJECTED"
    by (intro exI conjI)
  from h1 h2 w3 w4 w5 w6 show ?thesis by (intro conjI)
qed

section \<open>NAV movement\<close>

lemma nav_change_bound:
  assumes "is_draw r"
  shows "\<bar>nav_change c r\<bar> \<le>
     (if c = ''EQUITY'' then 2 / 100 else if c = ''DEBT'' then 2 / 1000 else 1 / 100)"
  using assms unfolding nav_change_def is_draw_def by (auto simp: abs_le_iff)

lemma simulateNAVMovement_ge_1: "1 \<le> simulateNAVMovement s r"
  by (simp add: simulateNAVMovement_def Let_def)

text \<open>
  Claim C8. For every scheme and every draw, \<open>simulateNAVMovement()\<close> returns at least
  1.0000. The value before the floor is the old NAV times one plus the relative change,
  rounded to four decimals (so within 0.00005 of the product), and the relative change is
  at most 2% in magnitude for EQUITY, 0.2% for DEBT and 1% for HYBRID and for every other
  category.
\<close>

theorem simulateNAVMovement_floor_and_bound:
  "is_draw r \<Longrightarrow>
   1 \<le> simulateNAVMovement s r \<and>
   simulateNAVMovement s r =
     max (toFixed 4 (scheme_nav s * (1 + nav_change (scheme_category s) r))) 1 \<and>
   \<bar>toFixed 4 (scheme_nav s * (1 + nav_change (scheme_category s) r))
      - scheme_nav s * (1 + nav_change (scheme_category s) r)\<bar> \<le> 1 / 20000 \<and>
   \<bar>nav_change (scheme_category s) r\<bar> \<le>
     (if scheme_category s = ''EQUITY'' then 2 / 100
      else if scheme_category s = ''DEBT'' then 2 / 1000
      else 1 / 100)"
proof -
  assume r: "is_draw r"
  have a: "1 \<le> simulateNAVMovement s r"
    by (rule simulateNAVMovement_ge_1)
  have b: "simulateNAVMovement s r =
     max (toFixed 4 (scheme_nav s * (1 + nav_change (scheme_category s) r))) 1"
    by (simp add: simulateNAVMovement_def Let_def)
  have c: "\<bar>toFixed 4 (scheme_nav s * (1 + nav_change (scheme_category s) r))
      - scheme_nav s * (1 + nav_change (scheme_category s) r)\<bar> \<le> 1 / 20000"
    using toFixed_error[of 4 "scheme_nav s * (1 + nav_change (scheme_category s) r)"] by simp
  from a b c nav_change_bound[OF r] show ?thesis by (intro conjI)
qed

theorem simulateNAVMovement_floor_and_bound_witness:
  "is_draw 0 \<and> 1 \<le> simulateNAVMovement example_scheme 0 \<and>
   \<bar>nav_change (scheme_category example_scheme) 0\<bar> \<le> 2 / 100"
proof -
  have h: "is_draw 0" by (simp add: is_draw_def)
  from simulateNAVMovement_floor_and_bound[OF h, of example_scheme] h
  show ?thesis by (simp add: example_scheme_def)
qed


section \<open>State machine of the simulation service\<close>

text \<open>
  Claim C7. \<open>pause()\<close> on a simulation that is not running throws the error "Simulation
  is not running"; \<open>resume()\<close> on a running simulation that is not paused logs a warning;
  \<open>start()\<close> on a running simulation logs a warning. In each case the flags, the
  counters, the interval registry and the store are left as they were.
\<close>

theorem state_machine_misuse:
  "(\<not> isRunning sim \<longrightarrow>
      pause sim = (Some NotRunning, [], sim) \<and>
      error_message NotRunning = ''Simulation is not running'') \<and>
   (isRunning sim \<and> \<not> isPaused sim \<longrightarrow>
      resume sim = (None, [(''warn'', ''Simulation is not paused'')], sim)) \<and>
   (isRunning sim \<longrightarrow>
      start now initializeSchemes (sim, db) =
        (None, [(''warn'', ''Simulation is already running'')], sim, db))"
  by (simp add: pause_def resume_def start_def error_message_def)

theorem state_machine_misuse_witness:
  "pause new_SimulationService = (Some NotRunning, [], new_SimulationService) \<and>
   resume running_simulation =
     (None, [(''warn'', ''Simulation is not paused'')], running_simulation) \<and>
   start 0 (\<lambda>db. (None, db)) (running_simulation, empty_database) =
     (None, [(''warn'', ''Simulation is already running'')], running_simulation, empty_database)"
proof -
  have h1: "\<not> isRunning new_SimulationService"
    by (simp add: new_SimulationService_def)
  have h2: "isRunning running_simulation \<and> \<not> isPaused running_simulation"
    by (simp add: running_simulation_def)
  from h2 have h3: "isRunning running_simulation" by (rule conjunct1)
  note i1 = state_machine_misuse[of new_SimulationService 0 "\<lambda>db. (None, db)" empty_database]
  note i2 = state_machine_misuse[of running_simulation 0 "\<lambda>db. (None, db)" empty_database]
  have a: "pause new_SimulationService = (Some NotRunning, [], new_SimulationService)"
    using i1[THEN conjunct1, THEN mp, OF h1] by (rule conjunct1)
  have b: "resume running_simulation =
     (None, [(''warn'', ''Simulation is not paused'')], running_simulation)"
    by (rule i2[THEN conjunct2, THEN conjunct1, THEN mp, OF h2])
  have c: "start 0 (\<lambda>db. (None, db)) (running_simulation, empty_database) =
     (None, [(''warn'', ''Simulation is already running'')], running_simulation, empty_database)"
    by (rule i2[THEN conjunct2, THEN conjunct2, THEN mp, OF h3])
  from a b c show ?thesis by (intro conjI)
qed

section \<open>Business days\<close>

lemma getDay_next: "getDay (t + ms_per_day) = (getDay t + 1) mod 7"
  by (simp add: getDay_def ms_per_day_def) presburger





section \<open>Processing a transaction\<close>

lemma updateHoldings_transactions [simp]:
  "transactions (updateHoldings t db) = transactions db"
  by (simp add: updateHoldings_def updateCurrentValue_def Let_def split: option.splits)

lemma updateHoldings_schemes [simp]:
  "schemes (updateHoldings t db) = schemes db"
  by (simp add: updateHoldings_def updateCurrentValue_def Let_def split: option.splits)

lemma updateHoldings_seq [simp]:
  "transactions_id_seq (updateHoldings t db) = transactions_id_seq db"
  by (simp add: updateHoldings_def updateCurrentValue_def Let_def split: option.splits)

lemma updateHoldings_sips [simp]:
  "sip_registrations (updateHoldings t db) = sip_registrations db"
  by (simp add: updateHoldings_def updateCurrentValue_def Let_def split: option.splits)


lemma process_found:
  assumes u: "calculateUnits (txn_amount t) nav = Some units"
    and r: "returning (\<lambda>r. txn_id r = txn_id t)
       (\<lambda>r. r\<lparr>txn_units := units, txn_nav := nav, txn_processDate := Some now,
               txn_settlementDate := Some (addBusinessDays now
                 (if txn_transactionType t = transactionTypes_REDEMPTION then 3 else 1)),
               txn_status := transaction_PROCESSED\<rparr>) (transactions db) = row # rest"
  shows "process now nav t db = Inr (row, updateHoldings row
     (db\<lparr>transactions := update_where (\<lambda>r. txn_id r = txn_id t)
       (\<lambda>r. r\<lparr>txn_units := units, txn_nav := nav, txn_processDate := Some now,
               txn_settlementDate := Some (addBusinessDays now
                 (if txn_transactionType t = transactionTypes_REDEMPTION then 3 else 1)),
               txn_status := transaction_PROCESSED\<rparr>) (transactions db)\<rparr>))"
  using u r by (simp add: process_def Let_def)

lemma process_not_found:
  assumes u: "calculateUnits (txn_amount t) nav = Some units"
    and r: "\<forall>r \<in> set (transactions db). txn_id r \<noteq> txn_id t"
  shows "process now nav t db = Inr (t, db)"
proof -
  have "returning (\<lambda>r. txn_id r = txn_id t) f (transactions db) = []" for f
    using r by (simp add: returning_Nil_iff)
  moreover have "update_where (\<lambda>r. txn_id r = txn_id t) f (transactions db) = transactions db" for f
    using r by (simp add: update_where_def map_idI)
  ultimately show ?thesis using u by (simp add: process_def Let_def)
qed

lemma process_error:
  "calculateUnits (txn_amount t) nav = None \<Longrightarrow> process now nav t db = Inl NonFiniteNumber"
  by (simp add: process_def)


section \<open>Holdings\<close>


section \<open>Settlement is idempotent on the holdings\<close>

lemma updateCAMSStatus_snd:
  "snd (updateCAMSStatus now st ref t db) =
     db\<lparr>transactions := update_where (\<lambda>r. txn_id r = txn_id t)
       (\<lambda>r. r\<lparr>txn_camsStatus := st, txn_camsProcessedDate := Some now,
               txn_camsReferenceNumber := ref\<rparr>) (transactions db)\<rparr>"
  by (simp add: updateCAMSStatus_def Let_def split: list.splits)

lemma updateCAMSStatus_fst:
  "fst (updateCAMSStatus now st ref t db) =
     (case returning (\<lambda>r. txn_id r = txn_id t)
       (\<lambda>r. r\<lparr>txn_camsStatus := st, txn_camsProcessedDate := Some now,
               txn_camsReferenceNumber := ref\<rparr>) (transactions db) of
        [] \<Rightarrow> t | row # _ \<Rightarrow> row)"
  by (simp add: updateCAMSStatus_def Let_def split: list.splits)

lemma updateCAMSStatus_holdings [simp]:
  "holdings (snd (updateCAMSStatus now st ref t db)) = holdings db"
  by (simp add: updateCAMSStatus_snd)

lemma updateCAMSStatus_keeps:
  assumes "r' \<in> set (transactions (snd (updateCAMSStatus now st ref t db)))"
  shows "\<exists>r \<in> set (transactions db). txn_id r' = txn_id r \<and> txn_status r' = txn_status r"
proof -
  from assms obtain r where r: "r \<in> set (transactions db)"
    and r': "r' = (if txn_id r = txn_id t
               then r\<lparr>txn_camsStatus := st, txn_camsProcessedDate := Some now,
                       txn_camsReferenceNumber := ref\<rparr> else r)"
    unfolding updateCAMSStatus_snd by (auto simp: update_where_mem)
  from r' have "txn_id r' = txn_id r \<and> txn_status r' = txn_status r"
    by (cases "txn_id r = txn_id t") simp_all
  with r show ?thesis by (rule bexI[rotated])
qed

lemma updateCAMSStatus_object_cases:
  "(fst (updateCAMSStatus now st ref t db) = t \<and>
      (\<forall>r \<in> set (transactions db). txn_id r \<noteq> txn_id t)) \<or>
   (\<exists>r \<in> set (transactions db). txn_id r = txn_id t \<and>
      txn_id (fst (updateCAMSStatus now st ref t db)) = txn_id t \<and>
      txn_status (fst (updateCAMSStatus now st ref t db)) = txn_status r)"
proof (cases "returning (\<lambda>r. txn_id r = txn_id t)
     (\<lambda>r. r\<lparr>txn_camsStatus := st, txn_camsProcessedDate := Some now,
             txn_camsReferenceNumber := ref\<rparr>) (transactions db)")
  case Nil
  then have "\<forall>r \<in> set (transactions db). txn_id r \<noteq> txn_id t"
    by (simp add: returning_Nil_iff)
  moreover from Nil have "fst (updateCAMSStatus now st ref t db) = t"
    by (simp add: updateCAMSStatus_fst)
  ultimately show ?thesis by simp
next
  case (Cons row rest)
  from returning_Cons[OF Cons] obtain r where r: "r \<in> set (transactions db)"
    "txn_id r = txn_id t" "row = r\<lparr>txn_camsStatus := st, txn_camsProcessedDate := Some now,
             txn_camsReferenceNumber := ref\<rparr>"
    by blast
  from Cons have "fst (updateCAMSStatus now st ref t db) = row"
    by (simp add: updateCAMSStatus_fst)
  with r have "txn_id r = txn_id t \<and>
      txn_id (fst (updateCAMSStatus now st ref t db)) = txn_id t \<and>
      txn_status (fst (updateCAMSStatus now st ref t db)) = txn_status r"
    by simp
  with r(1) show ?thesis by blast
qed

lemma settle_again:
  assumes "isProcessed t \<or>
     ((\<forall>r \<in> set (transactions db). txn_id r \<noteq> txn_id t) \<and>
      calculateUnits (txn_amount t) (txn_nav t) \<noteq> None)"
  shows "\<exists>t2 db2 n2. cams_settle inp t db n = Inr (t2, db2, n2) \<and> holdings db2 = holdings db"
proof (cases "outcome_success (simulateCAMSProcessing (in_random inp) (in_pick inp))")
  case False
  then have "cams_settle inp t db n =
     Inr (fst (updateCAMSStatus (in_clock inp) cams_REJECTED (Some (in_camsReference inp)) t db),
          snd (updateCAMSStatus (in_clock inp) cams_REJECTED (Some (in_camsReference inp)) t db), n)"
    by (simp add: cams_settle_def Let_def split: prod.splits)
  then show ?thesis by simp
next
  case True
  have "\<exists>db1. (if \<not> isProcessed t then process (in_clock inp) (txn_nav t) t db else Inr (t, db))
           = Inr (t, db1) \<and> holdings db1 = holdings db"
  proof (cases "isProcessed t")
    case True
    then show ?thesis by simp
  next
    case False
    with assms obtain u where "\<forall>r \<in> set (transactions db). txn_id r \<noteq> txn_id t"
      "calculateUnits (txn_amount t) (txn_nav t) = Some u"
      by auto
    from process_not_found[OF this(2,1)] False show ?thesis by simp
  qed
  then obtain db1 where p:
    "(if \<not> isProcessed t then process (in_clock inp) (txn_nav t) t db else Inr (t, db)) = Inr (t, db1)"
    and h: "holdings db1 = holdings db"
    by blast
  from True p have "cams_settle inp t db n =
     Inr (fst (updateCAMSStatus (in_clock inp) cams_PROCESSED (Some (in_camsReference inp)) t db1),
          snd (updateCAMSStatus (in_clock inp) cams_PROCESSED (Some (in_camsReference inp)) t db1),
          n + 1)"
    by (simp add: cams_settle_def Let_def split: prod.splits)
  with h show ?thesis by simp
qed

lemma process_marks_rows:
  assumes "process now nav t db = Inr (t', db')" and "r \<in> set (transactions db')"
    and "txn_id r = txn_id t"
  shows "txn_status r = transaction_PROCESSED"
proof -
  from assms(1) obtain units where u: "calculateUnits (txn_amount t) nav = Some units"
    by (cases "calculateUnits (txn_amount t) nav") (simp_all add: process_def)
  let ?f = "\<lambda>r. r\<lparr>txn_units := units, txn_nav := nav, txn_processDate := Some now,
               txn_settlementDate := Some (addBusinessDays now
                 (if txn_transactionType t = transactionTypes_REDEMPTION then 3 else 1)),
               txn_status := transaction_PROCESSED\<rparr>"
  from assms(1) u have "transactions db' =
     update_where (\<lambda>r. txn_id r = txn_id t) ?f (transactions db)"
    by (auto simp: process_def Let_def split: list.splits)
  with assms(2) obtain r1 where "r = (if txn_id r1 = txn_id t then ?f r1 else r1)"
    by (auto simp: update_where_mem)
  with assms(3) show ?thesis by (cases "txn_id r1 = txn_id t") auto
qed

lemma process_cases:
  assumes "process now nav t db = Inr (t', db')"
  shows "(t' = t \<and> db' = db \<and> (\<forall>r \<in> set (transactions db). txn_id r \<noteq> txn_id t) \<and>
          calculateUnits (txn_amount t) nav \<noteq> None) \<or>
         (txn_id t' = txn_id t \<and> (\<exists>r \<in> set (transactions db'). txn_id r = txn_id t))"
proof -
  from assms obtain units where u: "calculateUnits (txn_amount t) nav = Some units"
    by (cases "calculateUnits (txn_amount t) nav") (simp_all add: process_def)
  show ?thesis
  proof (cases "\<forall>r \<in> set (transactions db). txn_id r \<noteq> txn_id t")
    case True
    from process_not_found[OF u True] assms u True show ?thesis by simp
  next
    case False
    let ?f = "\<lambda>r. r\<lparr>txn_units := units, txn_nav := nav, txn_processDate := Some now,
               txn_settlementDate := Some (addBusinessDays now
                 (if txn_transactionType t = transactionTypes_REDEMPTION then 3 else 1)),
               txn_status := transaction_PROCESSED\<rparr>"
    from False have "returning (\<lambda>r. txn_id r = txn_id t) ?f (transactions db) \<noteq> []"
      by (simp add: returning_Nil_iff)
    then obtain row rest where rr:
      "returning (\<lambda>r. txn_id r = txn_id t) ?f (transactions db) = row # rest"
      by (cases "returning (\<lambda>r. txn_id r = txn_id t) ?f (transactions db)") auto
    from returning_Cons[OF rr] obtain r0 where r0: "r0 \<in> set (transactions db)"
      "txn_id r0 = txn_id t" "row = ?f r0"
      by blast
    from process_found[OF u rr] assms have t': "t' = row"
      and db': "transactions db' = update_where (\<lambda>r. txn_id r = txn_id t) ?f (transactions db)"
      by simp_all
    from r0 have m: "?f r0 \<in> set (transactions db')"
      unfolding db' update_where_mem by (intro bexI[of _ r0]) simp_all
    from r0 have "txn_id (?f r0) = txn_id t" by simp
    with m have "\<exists>r \<in> set (transactions db'). txn_id r = txn_id t" by (rule bexI[rotated])
    moreover from t' r0 have "txn_id t' = txn_id t" by simp
    ultimately show ?thesis by simp
  qed
qed

text \<open>
  Claim C1. Take a transaction object that carries the status of its row, and let the
  settlement task take it through its success branch, which calls \<open>process\<close> only when
  \<open>isProcessed()\<close> is false. When the task takes the resulting object through the loop
  body a second time, with any outcome, the second pass returns and the holdings are
  exactly those that the first pass left.
\<close>

theorem guarded_settlement_idempotent:
  assumes coherent: "\<forall>r \<in> set (transactions db). txn_id r = txn_id t \<longrightarrow> txn_status r = txn_status t"
    and first: "cams_settle inp1 t db n = Inr (t1, db1, n1)"
    and success: "outcome_success (simulateCAMSProcessing (in_random inp1) (in_pick inp1))"
  shows "\<exists>t2 db2 n2. cams_settle inp2 t1 db1 n1 = Inr (t2, db2, n2) \<and>
           holdings db2 = holdings db1"
proof -
  let ?u = "\<lambda>t db. updateCAMSStatus (in_clock inp1) cams_PROCESSED (Some (in_camsReference inp1)) t db"
  from first success obtain ta dba where
    p: "(if \<not> isProcessed t then process (in_clock inp1) (txn_nav t) t db else Inr (t, db))
          = Inr (ta, dba)"
    and t1: "t1 = fst (?u ta dba)" and db1: "db1 = snd (?u ta dba)"
    by (auto simp: cams_settle_def Let_def split: sum.splits prod.splits)
  have "isProcessed t1 \<or>
     ((\<forall>r \<in> set (transactions db1). txn_id r \<noteq> txn_id t1) \<and>
      calculateUnits (txn_amount t1) (txn_nav t1) \<noteq> None)"
  proof (cases "isProcessed t")
    case True
    with p have e: "ta = t" "dba = db" by simp_all
    from updateCAMSStatus_object_cases[of "in_clock inp1" cams_PROCESSED
        "Some (in_camsReference inp1)" t db]
    show ?thesis
    proof
      assume "fst (?u t db) = t \<and> (\<forall>r \<in> set (transactions db). txn_id r \<noteq> txn_id t)"
      with t1 e True show ?thesis by simp
    next
      assume "\<exists>r \<in> set (transactions db). txn_id r = txn_id t \<and>
         txn_id (fst (?u t db)) = txn_id t \<and> txn_status (fst (?u t db)) = txn_status r"
      with coherent t1 e True show ?thesis by (auto simp: isProcessed_def)
    qed
  next
    case False
    with p have pr: "process (in_clock inp1) (txn_nav t) t db = Inr (ta, dba)" by simp
    from process_cases[OF pr] show ?thesis
    proof
      assume a: "ta = t \<and> dba = db \<and> (\<forall>r \<in> set (transactions db). txn_id r \<noteq> txn_id t) \<and>
          calculateUnits (txn_amount t) (txn_nav t) \<noteq> None"
      then have nr: "\<forall>r \<in> set (transactions db). txn_id r \<noteq> txn_id t" by simp
      from updateCAMSStatus_object_cases[of "in_clock inp1" cams_PROCESSED
        "Some (in_camsReference inp1)" t db] nr
      have "fst (?u t db) = t" by blast
      moreover have "\<forall>r \<in> set (transactions (snd (?u t db))). txn_id r \<noteq> txn_id t"
        using updateCAMSStatus_keeps nr by metis
      ultimately show ?thesis using a t1 db1 by simp
    next
      assume a: "txn_id ta = txn_id t \<and> (\<exists>r \<in> set (transactions dba). txn_id r = txn_id t)"
      from updateCAMSStatus_object_cases[of "in_clock inp1" cams_PROCESSED
        "Some (in_camsReference inp1)" ta dba] a
      obtain r where "r \<in> set (transactions dba)" "txn_id r = txn_id ta"
        "txn_status (fst (?u ta dba)) = txn_status r"
        by auto
      with process_marks_rows[OF pr, of r] a t1 show ?thesis
        by (simp add: isProcessed_def)
    qed
  qed
  from settle_again[OF this] show ?thesis .
qed

section \<open>The settlement round trip on the example data\<close>

lemma floor_half: "\<lfloor>of_int k + (1 / 2 :: rat)\<rfloor> = k"
  by (rule floor_unique) simp_all

lemma toFixed_of_int: "toFixed f (of_int n) = of_int n"
proof (cases "n < 0")
  case True
  have "(- of_int n :: rat) * 10 ^ f + 1 / 2 = of_int (- n * 10 ^ f) + 1 / 2" by simp
  then have "\<lfloor>(- of_int n :: rat) * 10 ^ f + 1 / 2\<rfloor> = - n * 10 ^ f"
    by (simp only: floor_half)
  with True show ?thesis by (simp add: toFixed_def)
next
  case False
  have "(of_int n :: rat) * 10 ^ f + 1 / 2 = of_int (n * 10 ^ f) + 1 / 2" by simp
  then have "\<lfloor>(of_int n :: rat) * 10 ^ f + 1 / 2\<rfloor> = n * 10 ^ f"
    by (simp only: floor_half)
  with False show ?thesis by (simp add: toFixed_def)
qed

lemma toFixed_example: "toFixed 6 500 = 500"
  using toFixed_of_int[of 6 500] by simp





lemma first_settlement:
  "\<exists>t1 db1. cams_settle success_input example_transaction example_database 0 = Inr (t1, db1, 1) \<and>
     map_option (\<lambda>h. (h_total_units h, h_invested_amount h, h_current_value h))
       (holdings db1 (1, 1)) = Some (500, 5000, Some 5000)"
  by (simp add: cams_settle_def success_input_def simulateCAMSProcessing_def
      example_transaction_def example_database_def empty_database_def example_scheme_def
      isProcessed_def transaction_PROCESSED_def process_def calculateUnits_def
      toFixed_example returning_def update_where_def updateHoldings_def updateCurrentValue_def
      unitsChange_def amountChange_def transactionModes_REDEMPTION_def
      transactionTypes_REDEMPTION_def updateCAMSStatus_def cams_PROCESSED_def Let_def)

theorem guarded_settlement_idempotent_witness:
  "outcome_success (simulateCAMSProcessing (in_random success_input) (in_pick success_input)) \<and>
   (\<exists>t1 db1 n1 t2 db2 n2.
      cams_settle success_input example_transaction example_database 0 = Inr (t1, db1, n1) \<and>
      cams_settle success_input t1 db1 n1 = Inr (t2, db2, n2) \<and>
      holdings db2 = holdings db1 \<and>
      map_option (\<lambda>h. (h_total_units h, h_invested_amount h, h_current_value h))
       (holdings db2 (1, 1)) = Some (500, 5000, Some 5000))"
proof -
  have h1: "\<forall>r \<in> set (transactions example_database).
      txn_id r = txn_id example_transaction \<longrightarrow> txn_status r = txn_status example_transaction"
    by (simp add: example_database_def)
  have h2: "outcome_success (simulateCAMSProcessing (in_random success_input) (in_pick success_input))"
    by (simp add: success_input_def simulateCAMSProcessing_def)
  from first_settlement obtain t1 db1 where
    f: "cams_settle success_input example_transaction example_database 0 = Inr (t1, db1, 1)"
    and h: "map_option (\<lambda>h. (h_total_units h, h_invested_amount h, h_current_value h))
       (holdings db1 (1, 1)) = Some (500, 5000, Some 5000)"
    by (elim exE conjE) (rule that)
  from guarded_settlement_idempotent[OF h1 f h2, of success_input]
  obtain t2 db2 n2 where s: "cams_settle success_input t1 db1 1 = Inr (t2, db2, n2)"
    and e: "holdings db2 = holdings db1"
    by (elim exE conjE) (rule that)
  from h e have "map_option (\<lambda>h. (h_total_units h, h_invested_amount h, h_current_value h))
       (holdings db2 (1, 1)) = Some (500, 5000, Some 5000)"
    by simp
  with f s e have "\<exists>t1 db1 n1 t2 db2 n2.
      cams_settle success_input example_transaction example_database 0 = Inr (t1, db1, n1) \<and>
      cams_settle success_input t1 db1 n1 = Inr (t2, db2, n2) \<and>
      holdings db2 = holdings db1 \<and>
      map_option (\<lambda>h. (h_total_units h, h_invested_amount h, h_current_value h))
       (holdings db2 (1, 1)) = Some (500, 5000, Some 5000)"
    by (intro exI conjI)
  with h2 show ?thesis by (intro conjI)
qed

section \<open>SIP dates\<close>


lemma makeDate_valid:
  assumes "1 \<le> d" "d \<le> 31"
  shows "valid_date (makeDate y m d)"
proof -
  have m: "m mod 12 < 12" by simp
  show ?thesis
    using assms m
    by (auto simp: makeDate_def Let_def valid_date_def days_in_month_def)
qed

lemma getNextSipExecutionDate_months:
  "getNextSipExecutionDate frequency (y, m, d) =
     (if frequency = ''YEARLY'' then makeDate (y + 1) m d
      else makeDate y (m + frequency_months frequency) d)"
  by (simp add: getNextSipExecutionDate_def frequency_months_def setMonth_def setFullYear_def
      getMonth_def getFullYear_def)


lemma getNextSipExecutionDate_valid:
  assumes "valid_date dt"
  shows "valid_date (getNextSipExecutionDate frequency dt)"
proof -
  obtain y m d where dt: "dt = (y, m, d)" by (cases dt) auto
  from assms dt have "1 \<le> d" "d \<le> 31"
    by (auto simp: valid_date_def days_in_month_def split: if_splits)
  then show ?thesis
    unfolding dt getNextSipExecutionDate_months by (simp add: makeDate_valid)
qed

section \<open>SIP execution\<close>

lemma Transaction_create_sips [simp]:
  "sip_registrations (snd (Transaction_create data db)) = sip_registrations db"
  by (simp add: Transaction_create_def Let_def)

lemma process_sips:
  "process now nav t db = Inr (t', db') \<Longrightarrow> sip_registrations db' = sip_registrations db"
  by (auto simp: process_def Let_def split: option.splits list.splits)

lemma updateAfterExecution_alt:
  "updateAfterExecution s db =
     (case returning (\<lambda>r. sip_id r = sip_id s) (sip_assign s) (sip_registrations db) of
        [] \<Rightarrow> s | row # _ \<Rightarrow> new_SIP row,
      db\<lparr>sip_registrations :=
           update_where (\<lambda>r. sip_id r = sip_id s) (sip_assign s) (sip_registrations db)\<rparr>)"
proof -
  have "sip_assign s = (\<lambda>r. sip_assign s r)" by simp
  then show ?thesis
  unfolding updateAfterExecution_def sip_assign_def Let_def
  by (simp split: list.splits)
qed

lemma execute_Inr:
  assumes "execute now tid nav s db = Inr (t, s', db')"
  shows "\<exists>db2. sip_registrations db2 = sip_registrations db \<and>
           (s', db') = updateAfterExecution s db2"
proof -
  from assms obtain t0 db1 t1 db2 where
    c: "Transaction_create (sip_transactionData now tid nav s) db = (t0, db1)"
    and p: "process now (Some nav) t0 db1 = Inr (t1, db2)"
    and u: "updateAfterExecution s db2 = (s', db')"
    unfolding execute_def
    by (auto split: prod.splits sum.splits)
  from c have "sip_registrations db1 = sip_registrations db"
    using Transaction_create_sips[of _ db] by (metis snd_conv)
  with process_sips[OF p] u show ?thesis by auto
qed

lemma sip_assign_fields:
  "sip_id (sip_assign s r) = sip_id r"
  "sip_maxExecutions (sip_assign s r) = sip_maxExecutions r"
  "sip_executionCount (sip_assign s r) = sip_executionCount s + 1"
  by (simp_all add: sip_assign_def Let_def)

lemma new_SIP_fields [simp]:
  "sip_id (new_SIP r) = sip_id r"
  "sip_executionCount (new_SIP r) = sip_executionCount r"
  "sip_status (new_SIP r) = sip_status r"
  "sip_nextExecutionDate (new_SIP r) = sip_nextExecutionDate r"
  by (simp_all add: new_SIP_def)



lemma sip_assign_status:
  "sip_status (sip_assign s r) =
     (if (case sip_maxExecutions s of None \<Rightarrow> False
          | Some mx \<Rightarrow> mx \<noteq> 0 \<and> mx \<le> sip_executionCount s + 1)
      then ''COMPLETED''
      else if (case sip_endDate s of None \<Rightarrow> False
               | Some e \<Rightarrow> e < getNextSipExecutionDate (sip_frequency s)
                                 (date_of_nullable (sip_nextExecutionDate s)))
      then ''COMPLETED''
      else sip_status s)"
  by (simp add: sip_assign_def Let_def sip_COMPLETED_def split: option.splits)

lemma sip_assign_next:
  "sip_nextExecutionDate (sip_assign s r) =
     (if sip_status (sip_assign s r) = ''COMPLETED'' then None
      else Some (getNextSipExecutionDate (sip_frequency s)
                   (date_of_nullable (sip_nextExecutionDate s))))"
  by (simp add: sip_assign_def Let_def sip_COMPLETED_def)


lemma filter_update_where:
  assumes "\<And>r. p (f r) = p r"
  shows "filter p (update_where q f rows) = map (\<lambda>r. if q r then f r else r) (filter p rows)"
  using assms by (induction rows) (auto simp: update_where_def)

lemma filter_update_where_other:
  assumes "\<And>r. p r \<Longrightarrow> \<not> q r" "\<And>r. p (f r) = p r"
  shows "filter p (update_where q f rows) = filter p rows"
  using assms by (induction rows) (auto simp: update_where_def)

lemma SIP_findById_Some:
  "SIP_findById i db = Some s \<longleftrightarrow>
     (\<exists>r0 rs. filter (\<lambda>r. sip_id r = i) (sip_registrations db) = r0 # rs \<and> s = new_SIP r0)"
  by (auto simp: SIP_findById_def split: list.splits)

lemma sip_id_of_found: "SIP_findById i db = Some s \<Longrightarrow> sip_id s = i"
proof -
  assume "SIP_findById i db = Some s"
  then obtain r0 rs where f: "filter (\<lambda>r. sip_id r = i) (sip_registrations db) = r0 # rs"
    and s: "s = new_SIP r0"
    unfolding SIP_findById_Some by blast
  from f have "r0 \<in> set (filter (\<lambda>r. sip_id r = i) (sip_registrations db))" by simp
  with s show ?thesis by simp
qed

lemma new_SIP_max_idem [simp]:
  "sip_maxExecutions (new_SIP (sip_assign s r)) = sip_maxExecutions (new_SIP r)"
  by (simp add: new_SIP_def sip_assign_def Let_def)

lemma new_SIP_max_nonzero: "sip_maxExecutions (new_SIP r) = Some m \<Longrightarrow> m \<noteq> 0"
  by (auto simp: new_SIP_def split: option.splits if_splits)

lemma execute_step:
  assumes f: "SIP_findById i db = Some s"
    and e: "execute now tid nav s db = Inr (t, s', db')"
  shows "SIP_findById i db' = Some s' \<and>
         sip_executionCount s' = sip_executionCount s + 1 \<and>
         sip_maxExecutions s' = sip_maxExecutions s \<and>
         (\<exists>r0. s' = new_SIP (sip_assign s r0)) \<and>
         (\<forall>r \<in> set (sip_registrations db'). sip_id r = i \<longrightarrow> (\<exists>r1. r = sip_assign s r1))"
proof -
  from f have i: "sip_id s = i" by (rule sip_id_of_found)
  from f obtain r0 rs where fl: "filter (\<lambda>r. sip_id r = i) (sip_registrations db) = r0 # rs"
    and s: "s = new_SIP r0"
    unfolding SIP_findById_Some by blast
  from execute_Inr[OF e] obtain db2 where
    regs: "sip_registrations db2 = sip_registrations db"
    and upd: "(s', db') = updateAfterExecution s db2"
    by blast
  have ret: "returning (\<lambda>r. sip_id r = sip_id s) (sip_assign s) (sip_registrations db2)
      = sip_assign s r0 # map (sip_assign s) rs"
    by (simp add: returning_def regs i fl)
  from upd ret have s': "s' = new_SIP (sip_assign s r0)"
    and db': "sip_registrations db' =
      update_where (\<lambda>r. sip_id r = i) (sip_assign s) (sip_registrations db)"
    by (simp_all add: updateAfterExecution_alt regs i)
  have "filter (\<lambda>r. sip_id r = i) (sip_registrations db') =
      map (\<lambda>r. if sip_id r = i then sip_assign s r else r)
        (filter (\<lambda>r. sip_id r = i) (sip_registrations db))"
    unfolding db' by (rule filter_update_where) (simp add: sip_assign_fields)
  with fl have "filter (\<lambda>r. sip_id r = i) (sip_registrations db') =
      (if sip_id r0 = i then sip_assign s r0 else r0) #
      map (\<lambda>r. if sip_id r = i then sip_assign s r else r) rs"
    by simp
  moreover from fl have "r0 \<in> set (filter (\<lambda>r. sip_id r = i) (sip_registrations db))" by simp
  then have "sip_id r0 = i" by simp
  ultimately have "filter (\<lambda>r. sip_id r = i) (sip_registrations db') =
      sip_assign s r0 # map (\<lambda>r. if sip_id r = i then sip_assign s r else r) rs"
    by simp
  then have a: "SIP_findById i db' = Some s'"
    unfolding SIP_findById_Some s' by blast
  have b: "sip_executionCount s' = sip_executionCount s + 1"
    by (simp add: s' sip_assign_fields)
  have c: "sip_maxExecutions s' = sip_maxExecutions s"
    by (simp add: s' s)
  have d: "\<forall>r \<in> set (sip_registrations db'). sip_id r = i \<longrightarrow> (\<exists>r1. r = sip_assign s r1)"
  proof (intro ballI impI)
    fix r assume "r \<in> set (sip_registrations db')" "sip_id r = i"
    then obtain r1 where "r = (if sip_id r1 = i then sip_assign s r1 else r1)"
      unfolding db' by (auto simp: update_where_mem)
    with \<open>sip_id r = i\<close> show "\<exists>r1. r = sip_assign s r1"
      by (cases "sip_id r1 = i") auto
  qed
  from a b c s' d show ?thesis by blast
qed

lemma execute_settles:
  assumes f: "SIP_findById i db = Some s"
    and e: "execute now tid nav s db = Inr (t, s', db')"
  shows "sip_settled i s' db'"
  unfolding sip_settled_def
proof (intro allI impI)
  fix m assume a: "sip_maxExecutions s' = Some m \<and> m \<le> sip_executionCount s'"
  from execute_step[OF f e] obtain r0 where
    cnt: "sip_executionCount s' = sip_executionCount s + 1"
    and mx: "sip_maxExecutions s' = sip_maxExecutions s"
    and s': "s' = new_SIP (sip_assign s r0)"
    and rows: "\<forall>r \<in> set (sip_registrations db'). sip_id r = i \<longrightarrow> (\<exists>r1. r = sip_assign s r1)"
    by blast
  from f obtain r00 where "s = new_SIP r00" unfolding SIP_findById_Some by blast
  with a mx have m0: "m \<noteq> 0" using new_SIP_max_nonzero by metis
  from a mx cnt m0 have st: "sip_status (sip_assign s r) = ''COMPLETED''" for r
    by (simp add: sip_assign_status)
  then have nx: "sip_nextExecutionDate (sip_assign s r) = None" for r
    by (simp add: sip_assign_next)
  have ct: "sip_executionCount (sip_assign s r) = sip_executionCount s'" for r
    by (simp add: cnt sip_assign_fields)
  have "\<forall>r \<in> set (sip_registrations db'). sip_id r = i \<longrightarrow>
      sip_status r = ''COMPLETED'' \<and> sip_nextExecutionDate r = None \<and>
      sip_executionCount r = sip_executionCount s'"
  proof (intro ballI impI)
    fix r assume "r \<in> set (sip_registrations db')" "sip_id r = i"
    with rows obtain r1 where "r = sip_assign s r1" by blast
    with st nx ct show "sip_status r = ''COMPLETED'' \<and> sip_nextExecutionDate r = None \<and>
      sip_executionCount r = sip_executionCount s'"
      by simp
  qed
  with st nx show "sip_status s' = ''COMPLETED'' \<and> sip_nextExecutionDate s' = None \<and>
        (\<forall>r \<in> set (sip_registrations db'). sip_id r = i \<longrightarrow>
           sip_status r = ''COMPLETED'' \<and> sip_nextExecutionDate r = None \<and>
           sip_executionCount r = sip_executionCount s')"
    by (simp add: s')
qed

lemma execute_times_inv:
  "SIP_findById i db = Some s \<Longrightarrow> execute_times inp navs k n s db = Some (s', db') \<Longrightarrow>
   SIP_findById i db' = Some s' \<and>
   sip_executionCount s' = sip_executionCount s + n \<and>
   sip_maxExecutions s' = sip_maxExecutions s \<and>
   (0 < n \<longrightarrow> sip_settled i s' db')"
proof (induction n arbitrary: k s db)
  case 0
  then show ?case by simp
next
  case (Suc n)
  from Suc.prems(2) obtain t s1 db1 where
    e: "execute (ex_clock (inp k)) (ex_transactionId (inp k)) (navs k) s db = Inr (t, s1, db1)"
    and rest: "execute_times inp navs (k + 1) n s1 db1 = Some (s', db')"
    by (auto split: sum.splits)
  from execute_step[OF Suc.prems(1) e] have
    f1: "SIP_findById i db1 = Some s1"
    and c1: "sip_executionCount s1 = sip_executionCount s + 1"
    and m1: "sip_maxExecutions s1 = sip_maxExecutions s"
    by blast+
  from Suc.IH[OF f1 rest] have ih: "SIP_findById i db' = Some s'"
    "sip_executionCount s' = sip_executionCount s1 + n"
    "sip_maxExecutions s' = sip_maxExecutions s1"
    "0 < n \<longrightarrow> sip_settled i s' db'"
    by blast+
  have "sip_settled i s' db'"
  proof (cases n)
    case 0
    with rest have "s' = s1" "db' = db1" by simp_all
    with execute_settles[OF Suc.prems(1) e] show ?thesis by simp
  next
    case (Suc n')
    with ih(4) show ?thesis by simp
  qed
  with ih c1 m1 show ?case by simp
qed

lemma findDueForExecution_mem:
  assumes "(x, v) \<in> set (findDueForExecution today db)"
  shows "\<exists>r \<in> set (sip_registrations db). due_for_execution today r \<and> x = new_SIP r"
proof -
  from assms obtain r sc where
    "(r, sc) \<in> set (concat (map
            (\<lambda>r. map (\<lambda>s. (r, s))
                   (filter (\<lambda>s. scheme_id s = sip_schemeId r) (schemes db)))
            (filter (due_for_execution today) (sip_registrations db))))"
    and x: "x = new_SIP r"
    by (auto simp: findDueForExecution_def)
  then have "r \<in> set (filter (due_for_execution today) (sip_registrations db))"
    by auto
  with x show ?thesis by auto
qed

lemma execute_failure_rows:
  assumes "execute now tid nav s db = Inl (e, db1)"
  shows "sip_registrations db1 = sip_registrations db"
proof -
  from assms have "db1 = snd (Transaction_create (sip_transactionData now tid nav s) db)"
    unfolding execute_def by (auto split: prod.splits sum.splits)
  then show ?thesis by simp
qed

lemma execute_other_rows:
  assumes "sip_id s \<noteq> i" and "execute now tid nav s db = Inr (t, s', db')"
  shows "filter (\<lambda>r. sip_id r = i) (sip_registrations db') =
         filter (\<lambda>r. sip_id r = i) (sip_registrations db)"
proof -
  from execute_Inr[OF assms(2)] obtain db2 where
    regs: "sip_registrations db2 = sip_registrations db"
    and upd: "(s', db') = updateAfterExecution s db2"
    by blast
  from upd have "sip_registrations db' =
      update_where (\<lambda>r. sip_id r = sip_id s) (sip_assign s) (sip_registrations db)"
    by (simp add: updateAfterExecution_alt regs)
  moreover have "filter (\<lambda>r. sip_id r = i)
      (update_where (\<lambda>r. sip_id r = sip_id s) (sip_assign s) (sip_registrations db)) =
      filter (\<lambda>r. sip_id r = i) (sip_registrations db)"
    using assms(1) by (intro filter_update_where_other) (simp_all add: sip_assign_fields)
  ultimately show ?thesis by simp
qed

lemma sip_loop_other_rows:
  "\<forall>(x, v) \<in> set due. sip_id x \<noteq> i \<Longrightarrow>
   filter (\<lambda>r. sip_id r = i) (sip_registrations (sip_loop inp k due db)) =
   filter (\<lambda>r. sip_id r = i) (sip_registrations db)"
proof (induction due arbitrary: k db)
  case Nil
  then show ?case by simp
next
  case (Cons a due)
  obtain s nav where a: "a = (s, nav)" by (cases a)
  from Cons.prems a have ne: "sip_id s \<noteq> i" and rest: "\<forall>(x, v) \<in> set due. sip_id x \<noteq> i"
    by auto
  show ?case
  proof (cases "execute (ex_clock (inp k)) (ex_transactionId (inp k)) nav s db")
    case (Inl failure)
    obtain e db1 where fl: "failure = (e, db1)" by (cases failure)
    with Inl have "sip_registrations db1 = sip_registrations db"
      using execute_failure_rows by blast
    with Inl fl a Cons.IH[OF rest, of "k + 1" db1] show ?thesis by simp
  next
    case (Inr result)
    obtain t s' db' where r: "result = (t, s', db')" by (cases result)
    with Inr have "filter (\<lambda>r. sip_id r = i) (sip_registrations db') =
         filter (\<lambda>r. sip_id r = i) (sip_registrations db)"
      using execute_other_rows[OF ne] by blast
    with Inr r a Cons.IH[OF rest, of "k + 1" db'] show ?thesis by simp
  qed
qed

lemma retired_not_due:
  assumes "retired i c db" and "(x, v) \<in> set (findDueForExecution today db)"
  shows "sip_id x \<noteq> i"
proof
  assume xi: "sip_id x = i"
  from findDueForExecution_mem[OF assms(2)] obtain r where
    r: "r \<in> set (sip_registrations db)" "due_for_execution today r" "x = new_SIP r"
    by blast
  with xi assms(1) have "sip_nextExecutionDate r = None" by (simp add: retired_def)
  with r(2) show False by (simp add: due_for_execution_def)
qed

lemma retired_cong:
  assumes "filter (\<lambda>r. sip_id r = i) (sip_registrations db') =
           filter (\<lambda>r. sip_id r = i) (sip_registrations db)"
    and "retired i c db"
  shows "retired i c db'"
  unfolding retired_def
proof (intro ballI impI)
  fix r assume "r \<in> set (sip_registrations db')" "sip_id r = i"
  then have "r \<in> set (filter (\<lambda>r. sip_id r = i) (sip_registrations db'))" by simp
  with assms(1) have "r \<in> set (filter (\<lambda>r. sip_id r = i) (sip_registrations db))" by simp
  with assms(2) show "sip_nextExecutionDate r = None \<and> sip_executionCount r = c"
    by (simp add: retired_def)
qed

lemma sip_tick_retired:
  assumes "retired i c db"
  shows "filter (\<lambda>r. sip_id r = i) (sip_registrations (sip_tick today inp db)) =
         filter (\<lambda>r. sip_id r = i) (sip_registrations db)"
proof -
  have "\<forall>(x, v) \<in> set (findDueForExecution today db). sip_id x \<noteq> i"
  proof (intro ballI, clarify)
    fix x v assume "(x, v) \<in> set (findDueForExecution today db)" "i = sip_id x"
    with retired_not_due[OF assms, of x v today] show False by simp
  qed
  then show ?thesis unfolding sip_tick_def by (rule sip_loop_other_rows)
qed

lemma updateStatus_snd:
  "sip_registrations (snd (updateStatus newStatus s db)) =
     update_where (\<lambda>r. sip_id r = sip_id s) (\<lambda>r. r\<lparr>sip_status := newStatus\<rparr>)
       (sip_registrations db)"
  by (simp add: updateStatus_def Let_def split: list.splits)

lemma updateStatus_retired:
  assumes "retired i c db"
  shows "retired i c (snd (updateStatus newStatus s db))"
  unfolding retired_def
proof (intro ballI impI)
  fix r assume "r \<in> set (sip_registrations (snd (updateStatus newStatus s db)))"
    and ri: "sip_id r = i"
  then obtain r1 where r1: "r1 \<in> set (sip_registrations db)"
    "r = (if sip_id r1 = sip_id s then r1\<lparr>sip_status := newStatus\<rparr> else r1)"
    unfolding updateStatus_snd update_where_mem by blast
  from r1(2) ri have "sip_id r1 = i" by (simp split: if_splits)
  with assms r1(1) have "sip_nextExecutionDate r1 = None \<and> sip_executionCount r1 = c"
    by (simp add: retired_def)
  with r1(2) show "sip_nextExecutionDate r = None \<and> sip_executionCount r = c"
    by (simp split: if_splits)
qed

lemma apply_sip_event_retired:
  assumes "retired i c db"
  shows "retired i c (apply_sip_event e db)"
proof (cases e)
  case (SipPass today inp)
  with retired_cong[OF sip_tick_retired[OF assms] assms] show ?thesis by simp
next
  case (StatusUpdate newStatus s)
  with updateStatus_retired[OF assms] show ?thesis by simp
qed

lemma run_sip_events_retired:
  "retired i c db \<Longrightarrow> retired i c (run_sip_events es db)"
  by (induction es arbitrary: db) (simp_all add: apply_sip_event_retired)

text \<open>
  Claim C4. For an SIP read from the store with a maximum of \<open>m\<close> executions, after
  \<open>m\<close> successful calls of \<open>execute\<close> the status is COMPLETED, the next execution date
  is null and the count has grown by \<open>m\<close>. Whatever passes of the SIP execution task and
  status updates follow, the rows of the SIP keep the null date and that count, and
  \<open>findDueForExecution\<close> never returns the SIP, on any day: there is no further
  execution.
\<close>

theorem sip_completes_after_max_executions:
  assumes "SIP_findById i db = Some s"
    and "sip_maxExecutions s = Some m"
    and "execute_times inp navs k m s db = Some (s', db')"
  shows "sip_status s' = ''COMPLETED'' \<and>
     sip_nextExecutionDate s' = None \<and>
     sip_executionCount s' = sip_executionCount s + m \<and>
     SIP_findById i db' = Some s' \<and>
     (\<forall>events. \<forall>r \<in> set (sip_registrations (run_sip_events events db')).
        sip_id r = i \<longrightarrow>
        sip_nextExecutionDate r = None \<and>
        sip_executionCount r = sip_executionCount s + m) \<and>
     (\<forall>events today x v.
        (x, v) \<in> set (findDueForExecution today (run_sip_events events db')) \<longrightarrow>
        sip_id x \<noteq> i)"
proof -
  from assms(1) obtain r0 where "s = new_SIP r0" unfolding SIP_findById_Some by blast
  with assms(2) have m: "0 < m" using new_SIP_max_nonzero by fastforce
  from execute_times_inv[OF assms(1,3)] m have
    f: "SIP_findById i db' = Some s'"
    and c: "sip_executionCount s' = sip_executionCount s + m"
    and mx: "sip_maxExecutions s' = sip_maxExecutions s"
    and st: "sip_settled i s' db'"
    by blast+
  from st mx assms(2) c have fin:
    "sip_status s' = ''COMPLETED''" "sip_nextExecutionDate s' = None"
    "\<forall>r \<in> set (sip_registrations db'). sip_id r = i \<longrightarrow>
       sip_status r = ''COMPLETED'' \<and> sip_nextExecutionDate r = None \<and>
       sip_executionCount r = sip_executionCount s'"
    unfolding sip_settled_def by simp_all
  from fin(3) c have ret: "retired i (sip_executionCount s + m) db'"
    by (simp add: retired_def)
  have stable: "\<forall>events. \<forall>r \<in> set (sip_registrations (run_sip_events events db')).
        sip_id r = i \<longrightarrow>
        sip_nextExecutionDate r = None \<and>
        sip_executionCount r = sip_executionCount s + m"
    using run_sip_events_retired[OF ret] unfolding retired_def by blast
  have never: "\<forall>events today x v.
        (x, v) \<in> set (findDueForExecution today (run_sip_events events db')) \<longrightarrow>
        sip_id x \<noteq> i"
    using retired_not_due[OF run_sip_events_retired[OF ret]] by blast
  from fin(1,2) c f stable never show ?thesis by (intro conjI)
qed

lemma process_succeeds:
  "v \<noteq> 0 \<Longrightarrow> \<exists>t' db'. process now (Some v) t db = Inr (t', db')"
  by (simp add: process_def calculateUnits_def Let_def split: list.splits)

lemma execute_succeeds:
  assumes "nav \<noteq> 0"
  shows "\<exists>t s' db'. execute now tid nav s db = Inr (t, s', db')"
proof -
  obtain t0 db1 where c: "Transaction_create (sip_transactionData now tid nav s) db = (t0, db1)"
    by fastforce
  from process_succeeds[OF assms] obtain t1 db2 where
    p: "process now (Some nav) t0 db1 = Inr (t1, db2)" by blast
  obtain s' db3 where u: "updateAfterExecution s db2 = (s', db3)" by fastforce
  from c p u have "execute now tid nav s db = Inr (t1, s', db3)"
    by (simp add: execute_def)
  then show ?thesis by blast
qed

lemma execute_times_succeeds:
  "\<forall>j. navs j \<noteq> 0 \<Longrightarrow> \<exists>s' db'. execute_times inp navs k n s db = Some (s', db')"
proof (induction n arbitrary: k s db)
  case 0
  then show ?case by simp
next
  case (Suc n)
  from Suc.prems have "navs k \<noteq> 0" by simp
  from execute_succeeds[OF this] obtain t s1 db1 where
    "execute (ex_clock (inp k)) (ex_transactionId (inp k)) (navs k) s db = Inr (t, s1, db1)"
    by blast
  with Suc.IH[OF Suc.prems, of "k + 1" s1 db1] show ?case by simp
qed

lemma example_sip_found: "SIP_findById 1 sip_database = Some example_sip"
  by (simp add: SIP_findById_def sip_database_def example_sip_def new_SIP_def)

theorem sip_completes_after_max_executions_witness:
  "\<exists>s' db'. execute_times example_sip_input (\<lambda>k. 10) 0 2 example_sip sip_database
       = Some (s', db') \<and>
     sip_status s' = ''COMPLETED'' \<and> sip_nextExecutionDate s' = None \<and>
     sip_executionCount s' = 2 \<and> SIP_findById 1 db' = Some s'"
proof -
  have h2: "sip_maxExecutions example_sip = Some 2" by (simp add: example_sip_def)
  have "\<forall>j. (\<lambda>k. 10 :: rat) j \<noteq> 0" by simp
  from execute_times_succeeds[OF this] obtain s' db' where
    h3: "execute_times example_sip_input (\<lambda>k. 10) 0 2 example_sip sip_database = Some (s', db')"
    by blast
  note inst = sip_completes_after_max_executions[OF example_sip_found h2 h3]
  note p1 = inst[THEN conjunct1]
  note p2 = inst[THEN conjunct2, THEN conjunct1]
  note p3 = inst[THEN conjunct2, THEN conjunct2, THEN conjunct1]
  note p4 = inst[THEN conjunct2, THEN conjunct2, THEN conjunct2, THEN conjunct1]
  from h3 p1 p2 p3 p4 have "execute_times example_sip_input (\<lambda>k. 10) 0 2 example_sip sip_database
       = Some (s', db') \<and>
     sip_status s' = ''COMPLETED'' \<and> sip_nextExecutionDate s' = None \<and>
     sip_executionCount s' = 2 \<and> SIP_findById 1 db' = Some s'"
    by (simp add: example_sip_def)
  then show ?thesis by (intro exI)
qed


section \<open>Transactions of SIP executions are never settled\<close>






lemma updateAfterExecution_transactions [simp]:
  "transactions (snd (updateAfterExecution s db)) = transactions db"
  "transactions_id_seq (snd (updateAfterExecution s db)) = transactions_id_seq db"
  by (simp_all add: updateAfterExecution_alt)

















section \<open>The bound on the folios of a customer\<close>

lemma eligible_below_bound:
  assumes "c \<in> set (getCustomersEligibleForNewFolio maxFolios rnd db)"
  shows "c \<in> set (customers db) \<and> active_folio_count db (customer_id c) < maxFolios"
proof -
  from assms have "c \<in> set (sort_key rnd
       (filter (\<lambda>c. active_folio_count db (customer_id c) < maxFolios) (customers db)))"
    unfolding getCustomersEligibleForNewFolio_def by (rule in_set_takeD)
  then show ?thesis by simp
qed

lemma getRandomElement_mem: "getRandomElement r xs = Some x \<Longrightarrow> x \<in> set xs"
  by (auto simp: getRandomElement_def Let_def split: if_splits)

lemma createFolioForExistingCustomer_respects_bound:
  assumes "createFolioForExistingCustomer cfg inp (db, st) = (db', st')"
  shows "folios db' = folios db \<or>
     (\<exists>c sc. c \<in> set (customers db) \<and>
        active_folio_count db (customer_id c) < maxFoliosPerCustomer cfg \<and>
        folios db' = folios db @
          [\<lparr>folio_id = folios_id_seq db, folio_customerId = customer_id c,
            folio_schemeId = sc, folio_status = ''ACTIVE''\<rparr>])"
proof (cases "getRandomElement (pk_customer inp)
    (getCustomersEligibleForNewFolio (maxFoliosPerCustomer cfg) (pk_row inp) db)")
  case None
  with assms show ?thesis
    by (simp add: createFolioForExistingCustomer_def Let_def split: if_splits)
next
  case (Some c)
  from eligible_below_bound[OF getRandomElement_mem[OF Some]]
  have c: "c \<in> set (customers db)"
    "active_folio_count db (customer_id c) < maxFoliosPerCustomer cfg"
    by simp_all
  show ?thesis
  proof (cases "getRandomElement (pk_scheme inp) (Scheme_findAll 10 db)")
    case None
    with assms Some show ?thesis
      by (simp add: createFolioForExistingCustomer_def Let_def split: if_splits)
  next
    case sc: (Some scheme)
    from assms Some sc have "folios db' = folios db \<or>
        folios db' = folios db @
          [\<lparr>folio_id = folios_id_seq db, folio_customerId = customer_id c,
            folio_schemeId = scheme_id scheme, folio_status = ''ACTIVE''\<rparr>]"
      by (auto simp: createFolioForExistingCustomer_def Let_def Folio_create_def
          generateRandomFolio_def split: if_splits)
    with c show ?thesis by blast
  qed
qed

text \<open>
  Claim C6 says that a customer who already holds the configured maximum of ACTIVE folios
  is never the target of a folio creation, on any path. The eligibility query keeps to the
  bound (\<open>eligible_below_bound\<close>), and so does \<open>createFolioForExistingCustomer\<close>. The
  manual \<open>createFolios\<close> and the timer's \<open>createFolioForNewCustomer\<close> choose among all
  customers instead: in a store whose only customer is at a bound of 1, the eligibility
  query returns nobody and \<open>createFolioForExistingCustomer\<close> does nothing, yet each of
  the other two creates a second ACTIVE folio for that customer.
\<close>

theorem createFolios_ignores_bound:
  "active_folio_count capped_database 1 = maxFoliosPerCustomer capped_config \<and>
   getCustomersEligibleForNewFolio (maxFoliosPerCustomer capped_config) rnd capped_database = [] \<and>
   (\<exists>created db' st'.
      createFolios 1 (\<lambda>k. example_pick) (capped_database, zero_stats)
        = Inr (created, db', st') \<and>
      map folio_customerId created = [1] \<and>
      active_folio_count db' 1 = 2) \<and>
   (\<exists>db' st'.
      createFolioForNewCustomer example_pick (capped_database, zero_stats) = (db', st') \<and>
      active_folio_count db' 1 = 2) \<and>
   createFolioForExistingCustomer capped_config example_pick (capped_database, zero_stats)
     = (capped_database, zero_stats)"
proof -
  have a: "active_folio_count capped_database 1 = maxFoliosPerCustomer capped_config"
    by (simp add: active_folio_count_def capped_database_def capped_config_def
        empty_database_def)
  have none: "getCustomersEligibleForNewFolio (maxFoliosPerCustomer capped_config) order
      capped_database = []" for order
    by (simp add: getCustomersEligibleForNewFolio_def active_folio_count_def
        capped_database_def capped_config_def empty_database_def)
  note b = none[of rnd]
  have pick: "getRandomElement 0 [x] = Some x" for x :: 'a
    by (simp add: getRandomElement_def)
  have fa: "Customer_findAll n capped_database =
      take n [\<lparr>customer_id = 1, customer_createdAt = 0\<rparr>]" for n
    by (simp add: Customer_findAll_def capped_database_def empty_database_def)
  have sa: "Scheme_findAll n capped_database = take n [example_scheme]" for n
    by (simp add: Scheme_findAll_def capped_database_def empty_database_def example_scheme_def)
  let ?folio = "\<lparr>folio_id = 2, folio_customerId = 1, folio_schemeId = 1,
                  folio_status = ''ACTIVE''\<rparr>"
  let ?db = "capped_database\<lparr>folios := folios capped_database @ [?folio],
               folios_id_seq := 3\<rparr>"
  let ?st = "zero_stats\<lparr>foliosCreated := 1\<rparr>"
  have seq: "folios_id_seq capped_database = 2"
    by (simp add: capped_database_def empty_database_def)
  have sid: "scheme_id example_scheme = 1" by (simp add: example_scheme_def)
  have z: "foliosCreated zero_stats = 0" by (simp add: zero_stats_def)
  have cnt: "active_folio_count ?db 1 = 2"
    by (simp add: active_folio_count_def capped_database_def empty_database_def)
  have round: "createFolios_round example_pick (capped_database, zero_stats)
      = Inr (?folio, ?db, ?st)"
    by (simp add: createFolios_round_def fa sa pick example_pick_def
        Folio_create_def generateRandomFolio_def randomBoolean_def Let_def seq sid z)
  have "createFolios 1 (\<lambda>k. example_pick) (capped_database, zero_stats)
      = Inr ([?folio], ?db, ?st)"
    by (simp add: createFolios_def round)
  with cnt have c: "\<exists>created db' st'.
      createFolios 1 (\<lambda>k. example_pick) (capped_database, zero_stats)
        = Inr (created, db', st') \<and>
      map folio_customerId created = [1] \<and>
      active_folio_count db' 1 = 2"
    by simp
  have "createFolioForNewCustomer example_pick (capped_database, zero_stats) = (?db, ?st)"
    by (simp add: createFolioForNewCustomer_def fa sa pick example_pick_def
        Folio_create_def generateRandomFolio_def randomBoolean_def Let_def seq sid z)
  with cnt have d: "\<exists>db' st'.
      createFolioForNewCustomer example_pick (capped_database, zero_stats) = (db', st') \<and>
      active_folio_count db' 1 = 2"
    by simp
  have e: "createFolioForExistingCustomer capped_config example_pick
      (capped_database, zero_stats) = (capped_database, zero_stats)"
    by (simp add: createFolioForExistingCustomer_def none Let_def)
  from a b c d e show ?thesis by (intro conjI)
qed

end
